theory Spec2Isabelle
  imports Main "HOL-Library.Word" "HOL-Library.Sublist" "HOL-Library.Monad_Syntax"
begin

section \<open>Go library functions used by the plugins\<close>

text \<open>
  Go strings are byte sequences: \<open>string\<close> (a \<open>char list\<close>) with \<open>length\<close> as \<open>len\<close>.
  Go's \<open>int\<close> and \<open>int64\<close> values that only hold lengths, indices and counts are
  modelled as \<open>int\<close> (they stay far inside the 64-bit range); \<open>int32\<close> inputs are
  \<open>32 word\<close> read with \<open>sint\<close>.
\<close>

type_synonym int32 = "32 word"

subsection \<open>\<open>fmt.Sprintf("%d", n)\<close>\<close>

definition digit_char :: "nat \<Rightarrow> char" where
  "digit_char d = ''0123456789'' ! d"

function format_nat :: "nat \<Rightarrow> string" where
  "format_nat n =
     (if n < 10 then [digit_char n] else format_nat (n div 10) @ [digit_char (n mod 10)])"
  by pat_completeness auto
termination
  by (relation "measure id") auto

declare format_nat.simps [simp del]

definition Sprintf_d :: "int \<Rightarrow> string" where
  "Sprintf_d i = (if i < 0 then CHR ''-'' # format_nat (nat (- i)) else format_nat (nat i))"

subsection \<open>\<open>strings.Index\<close>, \<open>strings.Contains\<close>, slice expressions\<close>

text \<open>
  \<open>strings.Index(s, substr)\<close>: the index of the first instance of \<open>substr\<close> in \<open>s\<close>,
  or \<open>-1\<close>. \<open>strings.Contains(s, substr)\<close> is \<open>Index(s, substr) >= 0\<close>, as in Go's
  library.
\<close>

fun Index :: "string \<Rightarrow> string \<Rightarrow> int" where
  "Index [] substr = (if substr = [] then 0 else - 1)"
| "Index (c # s) substr =
     (if prefix substr (c # s) then 0
      else (let i = Index s substr in if i < 0 then - 1 else i + 1))"

definition Contains :: "string \<Rightarrow> string \<Rightarrow> bool" where
  "Contains s substr = (Index s substr \<ge> 0)"

text \<open>
  The slice expression \<open>s[lo:hi]\<close>. Go panics (slice bounds out of range) unless
  \<open>0 <= lo <= hi <= len(s)\<close>; the panic is the value \<open>None\<close>. \<open>s[lo:]\<close> is
  \<open>s[lo:len(s)]\<close> and \<open>s[:hi]\<close> is \<open>s[0:hi]\<close>.
\<close>

definition slice_of :: "string \<Rightarrow> int \<Rightarrow> int \<Rightarrow> string option" where
  "slice_of s lo hi =
     (if 0 \<le> lo \<and> lo \<le> hi \<and> hi \<le> int (length s)
      then Some (take (nat (hi - lo)) (drop (nat lo) s)) else None)"

definition slice_from :: "string \<Rightarrow> int \<Rightarrow> string option" where
  "slice_from s lo = slice_of s lo (int (length s))"

definition slice_to :: "string \<Rightarrow> int \<Rightarrow> string option" where
  "slice_to s hi = slice_of s 0 hi"

subsection \<open>\<open>strconv.ParseInt(s, 10, 64)\<close>\<close>

text \<open>
  An optional sign, then one or more decimal digits (no underscores in base 10); the
  error is a syntax error otherwise, and a range error when the number does not fit
  \<open>int64\<close>. Only \<open>err == nil\<close> is tested by the caller, so both errors are \<open>None\<close>.
\<close>

definition is_digit :: "char \<Rightarrow> bool" where
  "is_digit c = (48 \<le> (of_char c :: int) \<and> (of_char c :: int) \<le> 57)"

fun digits_value :: "int \<Rightarrow> string \<Rightarrow> int" where
  "digits_value acc [] = acc"
| "digits_value acc (c # cs) = digits_value (acc * 10 + (of_char c - 48)) cs"

definition strip_sign :: "string \<Rightarrow> bool \<times> string" where
  "strip_sign s =
     (case s of
        [] \<Rightarrow> (False, [])
      | c # r \<Rightarrow> if c = CHR ''+'' then (False, r) else if c = CHR ''-'' then (True, r) else (False, s))"

definition ParseInt :: "string \<Rightarrow> int option" where
  "ParseInt s =
     (let (neg, ds) = strip_sign s in
      if ds \<noteq> [] \<and> list_all is_digit ds then
        (let un = digits_value 0 ds in
         if \<not> neg \<and> un \<ge> 9223372036854775808 then None
         else if neg \<and> un > 9223372036854775808 then None
         else Some (if neg then - un else un))
      else None)"

subsection \<open>\<open>float64\<close>: conversion from \<open>int64\<close>, multiplication, conversion to \<open>int64\<close>\<close>

text \<open>
  A finite \<open>float64\<close> is \<open>Finite neg m e\<close>, the number \<open>m * 2 ^ e\<close> with its sign, where
  \<open>0 <= m < 2 ^ 53\<close> and \<open>-1074 <= e <= 971\<close> (the same number may be written with
  several pairs \<open>m\<close>, \<open>e\<close>); the other values are the two infinities and NaN.
\<close>

datatype float64 = Finite bool int int | Infinite bool | NaN

function bit_length :: "int \<Rightarrow> nat" where
  "bit_length n = (if n \<le> 0 then 0 else Suc (bit_length (n div 2)))"
  by pat_completeness auto
termination
  by (relation "measure nat") auto

declare bit_length.simps [simp del]

text \<open>
  \<open>round_float64 neg n f\<close>: the \<open>float64\<close> nearest to \<open>n * 2 ^ f\<close> (\<open>n >= 0\<close>), a tie
  going to the even mantissa (IEEE 754 round to nearest even, the rounding of every
  Go \<open>float64\<close> operation). The result keeps 53 significant bits, fewer below the
  smallest exponent \<open>-1074\<close>, and is an infinity from \<open>2 ^ 1024\<close> on.
\<close>

definition round_float64 :: "bool \<Rightarrow> int \<Rightarrow> int \<Rightarrow> float64" where
  "round_float64 neg n f =
     (let e = max (int (bit_length n) + f - 53) (- 1074);
          s = nat (e - f);
          m = (if e \<le> f then n * 2 ^ nat (f - e)
               else (let q = n div 2 ^ s; r = n mod 2 ^ s; h = 2 ^ (s - 1)
                     in if r > h \<or> (r = h \<and> odd q) then q + 1 else q))
      in if int (bit_length m) + e > 1024 then Infinite neg else Finite neg m e)"

text \<open>The conversion \<open>float64(i)\<close> of an integer, and the product \<open>x * y\<close>.\<close>

definition float64_of_int :: "int \<Rightarrow> float64" where
  "float64_of_int i = round_float64 (i < 0) \<bar>i\<bar> 0"

fun fmul :: "float64 \<Rightarrow> float64 \<Rightarrow> float64" where
  "fmul (Finite s1 m1 e1) (Finite s2 m2 e2) = round_float64 (s1 \<noteq> s2) (m1 * m2) (e1 + e2)"
| "fmul (Finite s1 m1 e1) (Infinite s2) = (if m1 = 0 then NaN else Infinite (s1 \<noteq> s2))"
| "fmul (Infinite s1) (Finite s2 m2 e2) = (if m2 = 0 then NaN else Infinite (s1 \<noteq> s2))"
| "fmul (Infinite s1) (Infinite s2) = Infinite (s1 \<noteq> s2)"
| "fmul NaN y = NaN"
| "fmul x NaN = NaN"

text \<open>
  The conversion \<open>int64(x)\<close> (here \<open>time.Duration(x)\<close>): the fraction is discarded. When
  \<open>int64\<close> cannot hold the result (also for an infinity and for NaN) Go leaves the value
  to the implementation: \<open>impl\<close> is the implementation's answer.
\<close>

definition int64_of_float64 :: "(float64 \<Rightarrow> int) \<Rightarrow> float64 \<Rightarrow> int" where
  "int64_of_float64 impl x =
     (case x of
        Finite neg m e \<Rightarrow>
          (let t = (if e \<ge> 0 then m * 2 ^ nat e else m div 2 ^ nat (- e));
               v = (if neg then - t else t)
           in if - 9223372036854775808 \<le> v \<and> v < 9223372036854775808 then v else impl x)
      | Infinite neg \<Rightarrow> impl x
      | NaN \<Rightarrow> impl x)"

section \<open>aeron\_stat: counter classification\<close>

text \<open>\<open>parseCounterType\<close>: the \<open>switch typeId\<close> of the source, case by case.\<close>

definition parseCounterType :: "int32 \<Rightarrow> string" where
  "parseCounterType typeId =
     (let t = sint typeId in
      if t = 0 then ''system_counter''
      else if t = 1 then ''bytes_sent''
      else if t = 2 then ''bytes_received''
      else if t = 3 then ''failed_offers''
      else if t = 4 then ''nak_messages_sent''
      else if t = 5 then ''nak_messages_received''
      else if t = 6 then ''status_messages_sent''
      else if t = 7 then ''status_messages_received''
      else if t = 8 then ''heartbeats_sent''
      else if t = 9 then ''heartbeats_received''
      else if t = 10 then ''retransmits_sent''
      else if t = 11 then ''flow_control_under_runs''
      else if t = 12 then ''flow_control_over_runs''
      else if t = 13 then ''invalid_packets''
      else if t = 14 then ''errors''
      else if t = 15 then ''short_sends''
      else if t = 16 then ''free_fails''
      else if t = 17 then ''sender_flow_control_limits''
      else if t = 18 then ''unblocked_publications''
      else if t = 19 then ''unblocked_control_commands''
      else if t = 20 then ''possible_ttl_asymmetry''
      else if t = 21 then ''reception_rate''
      else if t = 22 then ''sender_bpe''
      else if t = 23 then ''receiver_hwm''
      else if t = 24 then ''receiver_pos''
      else if t = 25 then ''sender_pos''
      else if t = 26 then ''sender_limit''
      else if t = 27 then ''per_image_type_id''
      else if t = 28 then ''publication_limit''
      else if t = 29 then ''sender_bpe_manual''
      else if t = 30 then ''subscription_pos''
      else if t = 31 then ''stream_pos''
      else if t = 32 then ''publisher_pos''
      else if t = 33 then ''publisher_limit''
      else if t = 34 then ''client_heartbeat''
      else if t = 35 then ''client_keepalive''
      else ''unknown_'' @ Sprintf_d t)"

text \<open>
  \<open>getMeasurementName\<close>: the tagless \<open>switch\<close> of the source; the first case whose
  condition holds is taken. The \<open>counterType\<close> argument is received and never read.
\<close>

definition getMeasurementName :: "int32 \<Rightarrow> string \<Rightarrow> string" where
  "getMeasurementName typeId counterType =
     (let t = sint typeId in
      if t \<ge> 1 \<and> t \<le> 2 then ''aeron_bytes''
      else if t \<ge> 4 \<and> t \<le> 10 then ''aeron_messages''
      else if t \<ge> 11 \<and> t \<le> 20 then ''aeron_flow_control''
      else if t \<ge> 21 \<and> t \<le> 26 then ''aeron_positions''
      else if t \<ge> 27 \<and> t \<le> 33 then ''aeron_streams''
      else if t \<ge> 34 \<and> t \<le> 35 then ''aeron_clients''
      else if t = 0 then ''aeron_system''
      else ''aeron_counter'')"

text \<open>
  The range table of the specification (section 4.1), written as a table of inclusive
  ranges looked up from the top, with the fallback bucket when no row matches. The
  bucket labels of the table are the measurement names without their \<open>aeron_\<close> prefix.
\<close>

definition bucket_table :: "(int \<times> int \<times> string) list" where
  "bucket_table =
     [(1, 2, ''bytes''), (4, 10, ''messages''), (11, 20, ''flow_control''),
      (21, 26, ''positions''), (27, 33, ''streams''), (34, 35, ''clients''),
      (0, 0, ''system'')]"

fun lookup_range :: "(int \<times> int \<times> string) list \<Rightarrow> int \<Rightarrow> string" where
  "lookup_range [] t = ''counter''"
| "lookup_range ((lo, hi, b) # rows) t = (if lo \<le> t \<and> t \<le> hi then b else lookup_range rows t)"

definition bucketFor_spec :: "int \<Rightarrow> string" where
  "bucketFor_spec t = ''aeron_'' @ lookup_range bucket_table t"

definition bucket_names :: "string list" where
  "bucket_names =
     [''aeron_bytes'', ''aeron_messages'', ''aeron_flow_control'', ''aeron_positions'',
      ''aeron_streams'', ''aeron_clients'', ''aeron_system'', ''aeron_counter'']"

text \<open>
  The table \<open>Counter Types\<close> of the plugin's README (\<open>The plugin recognizes these Aeron
  counter types\<close>), row by row: type id and counter type.
\<close>

definition readme_counter_types :: "(int \<times> string) list" where
  "readme_counter_types =
     [(0, ''system_counter''), (1, ''bytes_sent''), (2, ''bytes_received''),
      (3, ''failed_offers''), (4, ''nak_messages_sent''), (5, ''nak_messages_received''),
      (6, ''status_messages_sent''), (7, ''status_messages_received''),
      (8, ''heartbeats_sent''), (9, ''heartbeats_received''), (10, ''retransmits_sent''),
      (11, ''flow_control_under_runs''), (12, ''flow_control_over_runs''),
      (13, ''invalid_packets''), (14, ''errors''), (15, ''short_sends''),
      (21, ''reception_rate''), (24, ''receiver_pos''), (25, ''sender_pos''),
      (26, ''sender_limit''), (28, ''publication_limit''), (30, ''subscription_pos''),
      (32, ''publisher_pos''), (33, ''publisher_limit''), (34, ''client_heartbeat''),
      (35, ''client_keepalive'')]"

text \<open>
  The ten type ids from 0 to 35 that the README's table does not list, with the kinds
  the \<open>switch\<close> names for them.
\<close>

definition unlisted_counter_types :: "(int \<times> string) list" where
  "unlisted_counter_types =
     [(16, ''free_fails''), (17, ''sender_flow_control_limits''),
      (18, ''unblocked_publications''), (19, ''unblocked_control_commands''),
      (20, ''possible_ttl_asymmetry''), (22, ''sender_bpe''), (23, ''receiver_hwm''),
      (27, ''per_image_type_id''), (29, ''sender_bpe_manual''), (31, ''stream_pos'')]"

text \<open>
  What it is for a string to be the decimal text of an integer, said by reading the
  string: an optional minus sign, then digits without a leading zero (the single digit
  0 aside) whose value, read from the left, is the magnitude. The digits are read by
  \<open>digits_value\<close>; nothing here refers to how \<open>Sprintf_d\<close> writes them.
\<close>

definition digit_string :: "string \<Rightarrow> bool" where
  "digit_string ds = (ds \<noteq> [] \<and> list_all is_digit ds \<and> (ds = ''0'' \<or> hd ds \<noteq> CHR ''0''))"

definition decimal_text :: "int \<Rightarrow> string \<Rightarrow> bool" where
  "decimal_text i s =
     (case s of
        [] \<Rightarrow> False
      | c # cs \<Rightarrow>
          if c = CHR ''-'' then i < 0 \<and> digit_string cs \<and> digits_value 0 cs = - i
          else 0 \<le> i \<and> digit_string s \<and> digits_value 0 s = i)"

section \<open>aeron\_stat: label parsing\<close>

text \<open>
  A field holds an \<open>interface{}\<close>: the label (a string), an \<open>int64\<close> (the counter's
  value, a parsed id) or an \<open>int\<close> (the counter count of the summary).
\<close>

datatype field_value = StringField string | Int64Field int | IntField int

record ParsedLabel =
  tags :: "string \<rightharpoonup> string"
  flds :: "string \<rightharpoonup> field_value"

text \<open>
  \<open>parseCounterLabel\<close>, block by block. Every slice expression of the source is a
  \<open>slice_of\<close> here, so a slice out of range makes the whole function \<open>None\<close>.
  The channel block (the \<open>if strings.Contains(label, "aeron:")\<close> of the source):
\<close>

definition parseChannel :: "string \<Rightarrow> ParsedLabel \<Rightarrow> ParsedLabel option" where
  "parseChannel label parsed =
     (if Contains label ''aeron:'' then
        (let idx = Index label ''aeron:'' in
         if idx \<ge> 0 then do {
           channelPart0 \<leftarrow> slice_from label idx;
           let spaceIdx = Index channelPart0 '' '';
           channelPart \<leftarrow> (if spaceIdx > 0 then slice_to channelPart0 spaceIdx
                           else Some channelPart0);
           let parsed1 = parsed\<lparr>tags := (tags parsed)(''channel'' \<mapsto> channelPart)\<rparr>;
           if Contains channelPart ''endpoint='' then do {
             let endpointStart = Index channelPart ''endpoint='' + 9;
             rest \<leftarrow> slice_from channelPart endpointStart;
             let endpointEnd0 = Index rest ''&'';
             let endpointEnd = (if endpointEnd0 = - 1 then int (length rest) else endpointEnd0);
             endpoint \<leftarrow> slice_of channelPart endpointStart (endpointStart + endpointEnd);
             Some (parsed1\<lparr>tags := (tags parsed1)(''endpoint'' \<mapsto> endpoint)\<rparr>)
           } else Some parsed1
         } else Some parsed)
      else Some parsed)"

text \<open>
  The stream-id and session-id blocks have one shape: the marker, its length (10 for
  \<open>stream-id=\<close>, 11 for \<open>session-id=\<close>, the constants of the source) and the field name.
\<close>

definition parseIdField :: "string \<Rightarrow> int \<Rightarrow> string \<Rightarrow> string \<Rightarrow> ParsedLabel \<Rightarrow> ParsedLabel option" where
  "parseIdField marker markerLen field label parsed =
     (if Contains label marker then do {
        let start = Index label marker + markerLen;
        rest \<leftarrow> slice_from label start;
        let end0 = Index rest '' '';
        let end1 = (if end0 = - 1 then int (length rest) else end0);
        idStr \<leftarrow> slice_of label start (start + end1);
        (case ParseInt idStr of
           Some n \<Rightarrow> Some (parsed\<lparr>flds := (flds parsed)(field \<mapsto> Int64Field n)\<rparr>)
         | None \<Rightarrow> Some parsed)
      } else Some parsed)"

definition parseCounterLabel :: "string \<Rightarrow> ParsedLabel option" where
  "parseCounterLabel label = do {
     let parsed = \<lparr>tags = Map.empty, flds = [''label'' \<mapsto> StringField label]\<rparr>;
     parsed1 \<leftarrow> parseChannel label parsed;
     parsed2 \<leftarrow> parseIdField ''stream-id='' 10 ''stream_id'' label parsed1;
     parsed3 \<leftarrow> parseIdField ''session-id='' 11 ''session_id'' label parsed2;
     Some parsed3
   }"

text \<open>
  The parser as the specification words it (section 4.2), on the text itself rather
  than on indices: \<open>text_after sep marker s\<close> is what follows the first occurrence
  of \<open>marker\<close> in \<open>s\<close>, up to the next \<open>sep\<close> or the end of the string.
\<close>

definition text_after :: "char \<Rightarrow> string \<Rightarrow> string \<Rightarrow> string" where
  "text_after sep marker s =
     takeWhile (\<lambda>c. c \<noteq> sep) (drop (nat (Index s marker) + length marker) s)"

definition channel_spec :: "string \<Rightarrow> string" where
  "channel_spec label =
     takeWhile (\<lambda>c. c \<noteq> CHR '' '') (drop (nat (Index label ''aeron:'')) label)"

definition tags_spec :: "string \<Rightarrow> (string \<rightharpoonup> string)" where
  "tags_spec label =
     (if Contains label ''aeron:'' then
        (let ch = channel_spec label; t1 = [''channel'' \<mapsto> ch] in
         if Contains ch ''endpoint=''
         then t1(''endpoint'' \<mapsto> text_after (CHR ''&'') ''endpoint='' ch) else t1)
      else Map.empty)"

definition id_spec :: "string \<Rightarrow> string \<Rightarrow> int option" where
  "id_spec marker label =
     (if Contains label marker then ParseInt (text_after (CHR '' '') marker label) else None)"

definition flds_spec :: "string \<Rightarrow> (string \<rightharpoonup> field_value)" where
  "flds_spec label =
     (let f0 = [''label'' \<mapsto> StringField label];
          f1 = (case id_spec ''stream-id='' label of
                  Some n \<Rightarrow> f0(''stream_id'' \<mapsto> Int64Field n) | None \<Rightarrow> f0)
      in (case id_spec ''session-id='' label of
            Some n \<Rightarrow> f1(''session_id'' \<mapsto> Int64Field n) | None \<Rightarrow> f1))"

definition parse_spec :: "string \<Rightarrow> ParsedLabel" where
  "parse_spec label = \<lparr>tags = tags_spec label, flds = flds_spec label\<rparr>"

section \<open>aeron\_stat: the collection cycle\<close>

text \<open>
  A counter as \<open>counters.Reader.Scan\<close> hands it to the callback, a record as
  \<open>acc.AddFields(measurement, fields, tags)\<close> receives it, and the plugin with the
  fields the cycle reads: the configured tags and the reader (\<open>None\<close> is \<open>nil\<close>; an
  initialised reader is the list of counters its scan yields, in order).
\<close>

record counter =
  Id :: int32
  TypeId :: int32
  Value :: int
  Label :: string

record point =
  measurement :: string
  pfields :: "string \<rightharpoonup> field_value"
  ptags :: "string \<rightharpoonup> string"

record AeronStat =
  Tags :: "string \<rightharpoonup> string"
  reader :: "counter list option"

datatype stat_error = ReaderNotInitialized

text \<open>
  The callback passed to \<open>Scan\<close>: it closes over \<open>counterCount\<close> and the accumulator,
  which are the state threaded here. A panic inside it is \<open>None\<close>.
\<close>

definition onCounter :: "AeronStat \<Rightarrow> counter \<Rightarrow> int \<times> point list \<Rightarrow> (int \<times> point list) option" where
  "onCounter a c st =
     (case st of (counterCount, acc) \<Rightarrow> do {
        let counterCount1 = counterCount + 1;
        let tags0 = Tags a;
        let tags1 = tags0(''counter_id'' \<mapsto> Sprintf_d (sint (Id c)),
                          ''type_id'' \<mapsto> Sprintf_d (sint (TypeId c)));
        let counterType = parseCounterType (TypeId c);
        let tags2 = (if counterType \<noteq> [] then tags1(''counter_type'' \<mapsto> counterType) else tags1);
        parsedLabel \<leftarrow> parseCounterLabel (Label c);
        let tags3 = tags2 ++ tags parsedLabel;
        let fields0 = [''value'' \<mapsto> Int64Field (Value c)];
        let fields1 = fields0 ++ flds parsedLabel;
        let m = getMeasurementName (TypeId c) counterType;
        Some (counterCount1, acc @ [\<lparr>measurement = m, pfields = fields1, ptags = tags3\<rparr>])
      })"

fun Scan :: "(counter \<Rightarrow> 's \<Rightarrow> 's option) \<Rightarrow> counter list \<Rightarrow> 's \<Rightarrow> 's option" where
  "Scan f [] st = Some st"
| "Scan f (c # cs) st = f c st \<bind> Scan f cs"

definition collectCounters :: "AeronStat \<Rightarrow> point list \<Rightarrow> (stat_error option \<times> point list) option" where
  "collectCounters a acc =
     (case reader a of
        None \<Rightarrow> Some (Some ReaderNotInitialized, acc)
      | Some counters \<Rightarrow> do {
          (counterCount, acc1) \<leftarrow> Scan (onCounter a) counters (0, acc);
          let summaryTags = Tags a;
          let summaryFields = [''total_counters'' \<mapsto> IntField counterCount];
          Some (None, acc1 @ [\<lparr>measurement = ''aeron_stat_summary'', pfields = summaryFields,
                               ptags = summaryTags\<rparr>])
        })"

text \<open>
  The record of one counter as the specification words it (section 4.3): the static
  tags merged with \<open>counter_id\<close>, \<open>type_id\<close> and \<open>counter_type\<close>, then with the parsed
  label's tags; the fields \<open>value\<close> merged with the parsed label's fields; the bucket of
  section 4.1.
\<close>

definition counterRecord :: "AeronStat \<Rightarrow> counter \<Rightarrow> point" where
  "counterRecord a c =
     \<lparr>measurement = bucketFor_spec (sint (TypeId c)),
      pfields = [''value'' \<mapsto> Int64Field (Value c)] ++ flds_spec (Label c),
      ptags = (Tags a)(''counter_id'' \<mapsto> Sprintf_d (sint (Id c)),
                       ''type_id'' \<mapsto> Sprintf_d (sint (TypeId c)),
                       ''counter_type'' \<mapsto> parseCounterType (TypeId c))
              ++ tags_spec (Label c)\<rparr>"

definition summaryRecord :: "AeronStat \<Rightarrow> int \<Rightarrow> point" where
  "summaryRecord a n =
     \<lparr>measurement = ''aeron_stat_summary'', pfields = [''total_counters'' \<mapsto> IntField n],
      ptags = Tags a\<rparr>"

definition stat0 :: AeronStat where
  "stat0 = \<lparr>Tags = [''env'' \<mapsto> ''test''],
            reader = Some [\<lparr>Id = 0, TypeId = 1, Value = 42, Label = ''Bytes sent''\<rparr>,
                           \<lparr>Id = 1, TypeId = 999, Value = 7,
                            Label = ''aeron:udp?endpoint=localhost:40123 stream-id=10''\<rparr>]\<rparr>"

section \<open>aeron\_subscriber\<close>

text \<open>
  A metric and a message payload are opaque to the plugin; an accumulator is known by
  its identity. A pointer or function field of the struct is an \<open>option\<close>: \<open>None\<close> is
  \<open>nil\<close>. What the plugin does to its collaborators (logger, accumulator, cancel
  function, wait group, idle strategy) in \<open>consume\<close>, in the fragment handler and in
  \<open>Stop\<close> is recorded as a list of events, in order; the log lines of \<open>Start\<close> and
  \<open>connect\<close> are not recorded.

  The logger is the field \<open>Log\<close>, \<open>nil\<close> in a plugin as the factory builds it and set
  by the framework (and by the tests) before a method is called. \<open>Start\<close>, \<open>connect\<close>,
  \<open>consume\<close> and the fragment handler each begin with a log call, so they reach the
  statements modelled here only with the logger set: their definitions describe that
  case and do not read \<open>Log\<close>. \<open>Stop\<close> can be the first method a plugin that never
  started meets, and its definition does read \<open>Log\<close>: logging through a \<open>nil\<close> logger
  is a nil dereference, the value \<open>None\<close>.
\<close>

type_synonym metric = string
type_synonym accumulator = nat
type_synonym handle = "unit option"

datatype sub_error =
    ChannelRequired
  | StreamIdNegative
  | UnknownIdleStrategy string
  | ConnectFailed
  | AddSubscriptionFailed
  | ParseFailed
  | FailedToConnect sub_error

datatype idler = Sleeping int | Yielding | Busy | DefaultBackoff

datatype event =
    LogInfo string
  | LogDebugf string "int list"
  | LogErrorf string sub_error
  | CancelCalled
  | WaitCalled
  | AddMetric accumulator metric
  | IdleCalled idler int

record AeronSubscriber =
  AeronDir :: string
  Channel :: string
  StreamID :: int32
  DriverTimeout :: int
  FragmentLimit :: int
  IdleStrategy :: string
  IdleSleepDuration :: int
  Log :: handle
  parser :: "(string \<Rightarrow> metric list option) option"
  aeron :: handle
  subscription :: handle
  assembler :: handle
  currentAccumulator :: "accumulator option"
  cancel :: handle
  wg :: handle

text \<open>The plugin as the registered factory builds it: \<open>&AeronSubscriber{}\<close>.\<close>

definition newAeronSubscriber :: AeronSubscriber where
  "newAeronSubscriber =
     \<lparr>AeronDir = [], Channel = [], StreamID = 0, DriverTimeout = 0, FragmentLimit = 0,
      IdleStrategy = [], IdleSleepDuration = 0, Log = None, parser = None, aeron = None,
      subscription = None, assembler = None, currentAccumulator = None, cancel = None,
      wg = None\<rparr>"

text \<open>\<open>Init\<close>: the four defaults, then the two validations. Durations are nanoseconds.\<close>

definition Init :: "AeronSubscriber \<Rightarrow> sub_error option \<times> AeronSubscriber" where
  "Init a =
     (let a1 = (if DriverTimeout a = 0 then a\<lparr>DriverTimeout := 30 * 1000000000\<rparr> else a);
          a2 = (if FragmentLimit a1 = 0 then a1\<lparr>FragmentLimit := 10\<rparr> else a1);
          a3 = (if IdleStrategy a2 = [] then a2\<lparr>IdleStrategy := ''backoff''\<rparr> else a2);
          a4 = (if IdleSleepDuration a3 = 0 then a3\<lparr>IdleSleepDuration := 1000000\<rparr> else a3)
      in if Channel a4 = [] then (Some ChannelRequired, a4)
         else if sint (StreamID a4) < 0 then (Some StreamIdNegative, a4)
         else (None, a4))"

definition SetParser :: "AeronSubscriber \<Rightarrow> (string \<Rightarrow> metric list option) \<Rightarrow> AeronSubscriber" where
  "SetParser a p = a\<lparr>parser := Some p\<rparr>"

definition getAccumulator :: "AeronSubscriber \<Rightarrow> accumulator option" where
  "getAccumulator a = currentAccumulator a"

text \<open>
  The function \<open>createFragmentHandler\<close> returns, applied to the bytes of one message.
  It reads the parser and the accumulator through the plugin when it is called. A
  \<open>nil\<close> parser is a nil dereference: \<open>None\<close>.
\<close>

definition createFragmentHandler :: "AeronSubscriber \<Rightarrow> string \<Rightarrow> event list option" where
  "createFragmentHandler a data =
     (case parser a of
        None \<Rightarrow> None
      | Some parse \<Rightarrow>
          Some (LogDebugf ''Received fragment: offset=%d, length=%d, sessionId=%d'' [] #
            (case parse data of
               None \<Rightarrow> [LogErrorf ''Failed to parse message: %v'' ParseFailed]
             | Some metrics \<Rightarrow>
                 (case getAccumulator a of
                    None \<Rightarrow> []
                  | Some acc \<Rightarrow>
                      map (AddMetric acc) metrics @
                      [LogDebugf ''Added %d metrics to accumulator'' [int (length metrics)]]))))"

definition createIdleStrategy :: "AeronSubscriber \<Rightarrow> sub_error + idler" where
  "createIdleStrategy a =
     (if IdleStrategy a = ''sleeping'' then Inr (Sleeping (IdleSleepDuration a))
      else if IdleStrategy a = ''yielding'' then Inr Yielding
      else if IdleStrategy a = ''busy'' then Inr Busy
      else if IdleStrategy a = ''backoff'' then Inr DefaultBackoff
      else Inl (UnknownIdleStrategy (IdleStrategy a)))"

text \<open>
  The polling loop of \<open>consume\<close>. The loop ends when the context is cancelled, so a run
  is given by the polls that happen before that: for each, the number of fragments
  read and the messages the assembler completed and handed to the fragment handler.
\<close>

fun handleMessages :: "AeronSubscriber \<Rightarrow> string list \<Rightarrow> event list option" where
  "handleMessages a [] = Some []"
| "handleMessages a (m # ms) = do {
     e1 \<leftarrow> createFragmentHandler a m;
     e2 \<leftarrow> handleMessages a ms;
     Some (e1 @ e2)
   }"

fun pollLoop :: "AeronSubscriber \<Rightarrow> idler \<Rightarrow> (int \<times> string list) list \<Rightarrow> event list option" where
  "pollLoop a idleStrategy [] = Some [LogInfo ''Context cancelled, stopping consumption'']"
| "pollLoop a idleStrategy ((fragmentsRead, msgs) # polls) = do {
     e1 \<leftarrow> handleMessages a msgs;
     e2 \<leftarrow> pollLoop a idleStrategy polls;
     Some (e1 @ [IdleCalled idleStrategy fragmentsRead] @
           (if fragmentsRead > 0 then [LogDebugf ''Read %d fragments'' [fragmentsRead]] else []) @
           e2)
   }"

text \<open>\<open>consume(ctx, acc)\<close>: the accumulator it is given is not used in its body.\<close>

definition consume :: "AeronSubscriber \<Rightarrow> accumulator \<Rightarrow> (int \<times> string list) list \<Rightarrow> event list option" where
  "consume a acc polls =
     (case createIdleStrategy a of
        Inl err \<Rightarrow>
          Some [LogInfo ''Starting message consumption goroutine'',
                LogErrorf ''Failed to create idle strategy: %v'' err]
      | Inr idleStrategy \<Rightarrow> do {
          es \<leftarrow> pollLoop a idleStrategy polls;
          Some (LogInfo ''Starting message consumption goroutine'' # es)
        })"

text \<open>
  \<open>connect\<close> depends on the media driver: it is down, it refuses the subscription, or
  it accepts it.
\<close>

datatype driver = DriverDown | SubscriptionRefused | DriverUp

definition connect :: "AeronSubscriber \<Rightarrow> driver \<Rightarrow> sub_error option \<times> AeronSubscriber" where
  "connect a d =
     (case d of
        DriverDown \<Rightarrow> (Some ConnectFailed, a\<lparr>aeron := None\<rparr>)
      | SubscriptionRefused \<Rightarrow> (Some AddSubscriptionFailed, a\<lparr>aeron := Some (), subscription := None\<rparr>)
      | DriverUp \<Rightarrow> (None, a\<lparr>aeron := Some (), subscription := Some (), assembler := Some ()\<rparr>))"

text \<open>
  \<open>Start(acc)\<close>: the error, the plugin after it, and the goroutine it started, if any,
  as the accumulator \<open>consume\<close> was called with.
\<close>

definition Start :: "AeronSubscriber \<Rightarrow> accumulator \<Rightarrow> driver \<Rightarrow> sub_error option \<times> AeronSubscriber \<times> accumulator option" where
  "Start a acc d =
     (case connect a d of
        (Some err, a1) \<Rightarrow> (Some (FailedToConnect err), a1, None)
      | (None, a1) \<Rightarrow> (None, a1\<lparr>cancel := Some (), wg := Some ()\<rparr>, Some acc))"

definition Stop :: "AeronSubscriber \<Rightarrow> event list option" where
  "Stop a =
     (case Log a of
        None \<Rightarrow> None
      | Some logger \<Rightarrow>
          Some ([LogInfo ''Stopping Aeron subscriber plugin''] @
                (if cancel a \<noteq> None then [CancelCalled] else []) @
                (if wg a \<noteq> None then [WaitCalled] else []) @
                [LogInfo ''Aeron subscriber plugin stopped'']))"

text \<open>Whether an event delivers a metric to the given accumulator.\<close>

fun delivers_to :: "accumulator \<Rightarrow> event \<Rightarrow> bool" where
  "delivers_to acc (AddMetric acc' m) = (acc' = acc)"
| "delivers_to acc e = False"

text \<open>
  The plugin of the test \<open>TestAeronSubscriber_Stop_NotStarted\<close>: only the logger is
  set. A configured plugin, as the tests build it, with a parser that decodes every
  message into one metric, and the same plugin with an idle strategy name that is not
  one of the four.
\<close>

definition sub_logger_only :: AeronSubscriber where
  "sub_logger_only = newAeronSubscriber\<lparr>Log := Some ()\<rparr>"

definition sub1 :: AeronSubscriber where
  "sub1 = SetParser (newAeronSubscriber\<lparr>Channel := ''aeron:udp?endpoint=localhost:40123'',
                                         StreamID := 1001, Log := Some ()\<rparr>)
            (\<lambda>data. Some [data])"


section \<open>aeron\_publisher\<close>

text \<open>
  The result codes of \<open>Publication.Offer\<close> in the aeron-go library; a positive result
  is the new stream position.
\<close>

definition NotConnected :: int where "NotConnected = - 1"
definition BackPressured :: int where "BackPressured = - 2"
definition AdminAction :: int where "AdminAction = - 3"
definition PublicationClosed :: int where "PublicationClosed = - 4"

datatype pub_error =
    NotConnectedToAeron
  | SerializerNotSet
  | BackpressureErr
  | PublicationNotConnected
  | AdminActionRequired
  | PublicationClosedErr
  | UnknownResultCode int
  | FailedAfterRetries int "pub_error option"

datatype pub_log = WarnDropOversize int int | ErrorSerialize | ErrorPublish pub_error

text \<open>
  A publication answers each offer with a result code: the code may depend on how many
  offers were made before and on the bytes offered. Durations are nanoseconds
  (\<open>int64\<close>). The \<open>selfstat\<close> counters and what the plugin did to the outside (the
  durations it slept, the payloads it offered, the lines it logged, each in order) are
  fields of the same record, and so is \<open>outOfRangeInt64\<close>, the answer of the
  implementation the plugin runs on when a \<open>float64\<close> that \<open>int64\<close> cannot hold is
  converted.
\<close>

type_synonym publication = "nat \<Rightarrow> string \<Rightarrow> int"

record AeronPublisher =
  MaxMessageSize :: int
  MaxRetries :: int
  RetryDelay :: int
  RetryBackoffMultiplier :: float64
  MaxRetryDelay :: int
  serializer :: "(metric \<Rightarrow> string option) option"
  connected :: bool
  publication :: "publication option"
  messagesSent :: int
  messagesDropped :: int
  bytesTransferred :: int
  backpressureErrors :: int
  connectionErrors :: int
  retryAttempts :: int
  slept :: "int list"
  offered :: "string list"
  logged :: "pub_log list"
  outOfRangeInt64 :: "float64 \<Rightarrow> int"

text \<open>The expression \<open>time.Duration(float64(delay) * a.RetryBackoffMultiplier)\<close>.\<close>

definition scaleDelay :: "AeronPublisher \<Rightarrow> int \<Rightarrow> int" where
  "scaleDelay a delay =
     int64_of_float64 (outOfRangeInt64 a) (fmul (float64_of_int delay) (RetryBackoffMultiplier a))"

text \<open>
  \<open>offerMessage\<close>: its error result is always \<open>nil\<close> in the source, so only the code is
  returned. A \<open>nil\<close> publication is a nil dereference: \<open>None\<close>.
\<close>

definition offerMessage :: "AeronPublisher \<Rightarrow> string \<Rightarrow> (int \<times> AeronPublisher) option" where
  "offerMessage a data =
     (case publication a of
        None \<Rightarrow> None
      | Some offer \<Rightarrow> Some (offer (length (offered a)) data, a\<lparr>offered := offered a @ [data]\<rparr>))"

text \<open>
  The \<open>for attempt := 0; attempt <= a.MaxRetries; attempt++\<close> loop of \<open>publishMessage\<close>,
  with its variables \<open>attempt\<close>, \<open>delay\<close> and \<open>lastErr\<close>. Each \<open>continue\<close> is the
  recursive call, each \<open>return\<close> a result.
\<close>

function publishLoop :: "string \<Rightarrow> int \<Rightarrow> int \<Rightarrow> pub_error option \<Rightarrow> AeronPublisher \<Rightarrow> (pub_error option \<times> AeronPublisher) option" where
  "publishLoop data attempt delay lastErr a =
     (if attempt \<le> MaxRetries a then
        (let a1 = (if attempt > 0
                   then a\<lparr>retryAttempts := retryAttempts a + 1, slept := slept a @ [delay]\<rparr>
                   else a);
             delay1 = (if attempt > 0
                       then (let d = scaleDelay a delay in
                             if d > MaxRetryDelay a then MaxRetryDelay a else d)
                       else delay)
         in case offerMessage a1 data of
              None \<Rightarrow> None
            | Some (result, a2) \<Rightarrow>
                if result = BackPressured then
                  publishLoop data (attempt + 1) delay1 (Some BackpressureErr)
                    (a2\<lparr>backpressureErrors := backpressureErrors a2 + 1\<rparr>)
                else if result = NotConnected then
                  publishLoop data (attempt + 1) delay1 (Some PublicationNotConnected)
                    (a2\<lparr>connectionErrors := connectionErrors a2 + 1\<rparr>)
                else if result = AdminAction then
                  publishLoop data (attempt + 1) delay1 (Some AdminActionRequired) a2
                else if result = PublicationClosed then
                  Some (Some PublicationClosedErr, a2\<lparr>connectionErrors := connectionErrors a2 + 1\<rparr>)
                else if result > 0 then Some (None, a2)
                else publishLoop data (attempt + 1) delay1 (Some (UnknownResultCode result)) a2)
      else Some (Some (FailedAfterRetries (MaxRetries a) lastErr), a))"
  by pat_completeness auto
termination
  by (relation "measure (\<lambda>(data, attempt, delay, lastErr, a). nat (MaxRetries a + 1 - attempt))")
    (auto simp: offerMessage_def split: option.splits if_splits)

declare publishLoop.simps [simp del]

text \<open>
  Names for the two effects of the \<open>if attempt > 0\<close> block at the head of the loop body:
  the plugin after it (one more retry counted, one more sleep done), and the value of
  \<open>delay\<close> after it.
\<close>

definition beforeOffer :: "AeronPublisher \<Rightarrow> int \<Rightarrow> int \<Rightarrow> AeronPublisher" where
  "beforeOffer a attempt delay =
     (if attempt > 0
      then a\<lparr>retryAttempts := retryAttempts a + 1, slept := slept a @ [delay]\<rparr> else a)"

definition nextDelay :: "AeronPublisher \<Rightarrow> int \<Rightarrow> int \<Rightarrow> int" where
  "nextDelay a attempt delay =
     (if attempt > 0
      then (let d = scaleDelay a delay in
            if d > MaxRetryDelay a then MaxRetryDelay a else d)
      else delay)"

text \<open>
  The delays that \<open>n\<close> successive retries sleep when the first of them sleeps \<open>d\<close>:
  each is the one before it, scaled and clamped.
\<close>

fun delaysFrom :: "AeronPublisher \<Rightarrow> int \<Rightarrow> nat \<Rightarrow> int list" where
  "delaysFrom a d 0 = []"
| "delaysFrom a d (Suc n) = d # delaysFrom a (nextDelay a 1 d) n"

definition afterBackpressure :: "AeronPublisher \<Rightarrow> int \<Rightarrow> int \<Rightarrow> string \<Rightarrow> AeronPublisher" where
  "afterBackpressure a attempt delay data =
     (beforeOffer a attempt delay)\<lparr>offered := offered a @ [data],
                                   backpressureErrors := backpressureErrors a + 1\<rparr>"

definition publishMessage :: "AeronPublisher \<Rightarrow> string \<Rightarrow> (pub_error option \<times> AeronPublisher) option" where
  "publishMessage a data = publishLoop data 0 (RetryDelay a) None a"

text \<open>
  The \<open>for _, metric := range metrics\<close> loop of \<open>Write\<close>; each \<open>continue\<close> goes on with
  the rest of the batch.
\<close>

fun WriteLoop :: "AeronPublisher \<Rightarrow> metric list \<Rightarrow> AeronPublisher option" where
  "WriteLoop a [] = Some a"
| "WriteLoop a (m # ms) =
     (case serializer a of
        None \<Rightarrow> None
      | Some serialize \<Rightarrow>
          (case serialize m of
             None \<Rightarrow> WriteLoop (a\<lparr>logged := logged a @ [ErrorSerialize]\<rparr>) ms
           | Some data \<Rightarrow>
               if MaxMessageSize a > 0 \<and> int (length data) > MaxMessageSize a then
                 WriteLoop (a\<lparr>messagesDropped := messagesDropped a + 1,
                               logged := logged a @
                                 [WarnDropOversize (int (length data)) (MaxMessageSize a)]\<rparr>) ms
               else
                 (case publishMessage a data of
                    None \<Rightarrow> None
                  | Some (Some err, a1) \<Rightarrow>
                      WriteLoop (a1\<lparr>messagesDropped := messagesDropped a1 + 1,
                                     logged := logged a1 @ [ErrorPublish err]\<rparr>) ms
                  | Some (None, a1) \<Rightarrow>
                      WriteLoop (a1\<lparr>messagesSent := messagesSent a1 + 1,
                                     bytesTransferred := bytesTransferred a1 + int (length data)\<rparr>)
                        ms)))"

definition Write :: "AeronPublisher \<Rightarrow> metric list \<Rightarrow> (pub_error option \<times> AeronPublisher) option" where
  "Write a metrics =
     (if \<not> connected a \<or> publication a = None then Some (Some NotConnectedToAeron, a)
      else if serializer a = None then Some (Some SerializerNotSet, a)
      else map_option (\<lambda>a'. (None, a')) (WriteLoop a metrics))"

text \<open>
  A connected publisher with the defaults \<open>Connect\<close> sets (3 retries, 1ms, multiplier
  2.0, 100ms), a serializer that writes a metric as its own text, and a publication
  given by its answers. It runs on an implementation that converts every \<open>float64\<close>
  out of the range of \<open>int64\<close> to the smallest \<open>int64\<close>, as amd64 does.
\<close>

definition pub0 :: "publication \<Rightarrow> AeronPublisher" where
  "pub0 p =
     \<lparr>MaxMessageSize = 0, MaxRetries = 3, RetryDelay = 1000000,
      RetryBackoffMultiplier = Finite False 1 1, MaxRetryDelay = 100000000,
      serializer = Some (\<lambda>m. Some m), connected = True, publication = Some p,
      messagesSent = 0, messagesDropped = 0, bytesTransferred = 0, backpressureErrors = 0,
      connectionErrors = 0, retryAttempts = 0, slept = [], offered = [], logged = [],
      outOfRangeInt64 = (\<lambda>x. - 9223372036854775808)\<rparr>"

text \<open>
  The same publisher with a retry delay of 200ms, above the maximum of 100ms, and a
  publication that is always backpressured; one with the multiplier 0.5 instead; and
  one with a maximum message size of 3 bytes whose publication accepts every offer.
\<close>

definition pub_slow :: AeronPublisher where
  "pub_slow = (pub0 (\<lambda>k data. BackPressured))\<lparr>RetryDelay := 200000000\<rparr>"

definition pub_half :: AeronPublisher where
  "pub_half = (pub0 (\<lambda>k data. BackPressured))\<lparr>RetryBackoffMultiplier := Finite False 1 (- 1)\<rparr>"

definition pub_small :: AeronPublisher where
  "pub_small = (pub0 (\<lambda>k data. 1))\<lparr>MaxMessageSize := 3\<rparr>"

section \<open>Properties of the classifier\<close>

lemma format_nat_nonempty: "format_nat n \<noteq> []"
  by (subst format_nat.simps) simp

lemma Sprintf_d_nonempty: "Sprintf_d i \<noteq> []"
  by (simp add: Sprintf_d_def format_nat_nonempty)

text \<open>
  C7: for every \<open>typeId\<close> and every kind string, \<open>getMeasurementName\<close> returns the bucket
  that the range table of section 4.1 gives for \<open>typeId\<close>; the result is one of the
  eight names of the fixed enumeration and does not depend on the kind string.
\<close>

theorem getMeasurementName_table:
  "getMeasurementName typeId kind = bucketFor_spec (sint typeId)
   \<and> List.member bucket_names (getMeasurementName typeId kind)
   \<and> getMeasurementName typeId kind = getMeasurementName typeId kind'"
  by (simp add: getMeasurementName_def bucketFor_spec_def bucket_table_def bucket_names_def
      Let_def)

text \<open>What \<open>Sprintf_d\<close> writes is the decimal text of its argument.\<close>

lemma digit_char_digit:
  assumes "d < 10"
  shows "is_digit (digit_char d) \<and> of_char (digit_char d) = 48 + int d
         \<and> (digit_char d = CHR ''0'') = (d = 0) \<and> digit_char d \<noteq> CHR ''-''"
proof -
  from assms have "d = 0 \<or> d = 1 \<or> d = 2 \<or> d = 3 \<or> d = 4 \<or> d = 5 \<or> d = 6 \<or> d = 7 \<or> d = 8 \<or> d = 9"
    by arith
  then show ?thesis
    by (elim disjE) (simp_all add: digit_char_def is_digit_def)
qed

lemma digits_value_append:
  "digits_value acc (xs @ ys) = digits_value (digits_value acc xs) ys"
  by (induction xs arbitrary: acc) simp_all

lemma format_nat_digits:
  "list_all is_digit (format_nat n) \<and> digits_value 0 (format_nat n) = int n"
proof (induction n rule: format_nat.induct)
  case (1 n)
  show ?case
  proof (cases "n < 10")
    case True
    with digit_char_digit [of n] show ?thesis
      by (subst (1 2) format_nat.simps) simp
  next
    case False
    have m: "n mod 10 < 10" by simp
    have "int (n div 10 * 10 + n mod 10) = int n" by simp
    then have ar: "int (n div 10) * 10 + int (n mod 10) = int n"
      by (simp only: of_nat_add of_nat_mult of_nat_numeral)
    from False "1.IH" digit_char_digit [OF m] ar show ?thesis
      by (subst (1 2) format_nat.simps) (simp add: digits_value_append)
  qed
qed

lemma format_nat_hd:
  "format_nat n \<noteq> [] \<and> hd (format_nat n) \<noteq> CHR ''-''
   \<and> (0 < n \<longrightarrow> hd (format_nat n) \<noteq> CHR ''0'')"
proof (induction n rule: format_nat.induct)
  case (1 n)
  show ?case
  proof (cases "n < 10")
    case True
    with digit_char_digit [of n] show ?thesis
      by (subst (1 2 3) format_nat.simps) simp
  next
    case False
    then have "0 < n div 10" by simp
    with False "1.IH" show ?thesis
      by (subst (1 2 3) format_nat.simps) simp
  qed
qed

lemma format_nat_0: "format_nat 0 = ''0''"
  by (subst format_nat.simps) (simp add: digit_char_def)

lemma format_nat_digit_string: "digit_string (format_nat n)"
proof (cases "n = 0")
  case True
  then show ?thesis by (simp add: format_nat_0 digit_string_def is_digit_def)
next
  case False
  with format_nat_hd [of n] format_nat_digits [of n] show ?thesis
    by (simp add: digit_string_def)
qed

lemma Sprintf_d_decimal: "decimal_text i (Sprintf_d i)"
proof (cases "i < 0")
  case True
  with format_nat_digit_string [of "nat (- i)"] format_nat_digits [of "nat (- i)"]
  show ?thesis
    by (simp add: Sprintf_d_def decimal_text_def)
next
  case False
  obtain c cs where f: "format_nat (nat i) = c # cs"
    using format_nat_hd [of "nat i"] by (cases "format_nat (nat i)") auto
  with format_nat_hd [of "nat i"] have c: "c \<noteq> CHR ''-''" by simp
  from False f c format_nat_digit_string [of "nat i"] format_nat_digits [of "nat i"]
  show ?thesis
    by (simp add: Sprintf_d_def decimal_text_def)
qed

text \<open>
  An integer has one decimal text only: two strings of digits without a leading zero
  that have the same value are the same string.
\<close>

lemma digits_value_snoc:
  "digits_value acc (xs @ [c]) = digits_value acc xs * 10 + (of_char c - 48)"
  by (induction xs arbitrary: acc) simp_all

lemma digits_value_nonneg:
  "0 \<le> acc \<Longrightarrow> list_all is_digit xs \<Longrightarrow> 0 \<le> digits_value acc xs"
  by (induction xs arbitrary: acc) (simp_all add: is_digit_def)

lemma digits_value_pos:
  "list_all is_digit xs \<Longrightarrow> xs \<noteq> [] \<Longrightarrow> hd xs \<noteq> CHR ''0'' \<Longrightarrow> 0 < digits_value 0 xs"
proof (induction xs rule: rev_induct)
  case Nil
  then show ?case by simp
next
  case (snoc c xs)
  show ?case
  proof (cases "xs = []")
    case True
    have "of_char c \<noteq> (48 :: int)"
    proof
      assume "of_char c = (48 :: int)"
      then have "of_char c = (of_char (CHR ''0'') :: int)" by simp
      then have "c = CHR ''0''" by (simp only: of_char_eq_iff)
      with snoc.prems True show False by simp
    qed
    with snoc.prems True show ?thesis by (simp add: is_digit_def)
  next
    case False
    with snoc have "0 < digits_value 0 xs" by simp
    with snoc.prems show ?thesis by (simp add: digits_value_snoc is_digit_def)
  qed
qed

lemma digits_value_inj:
  assumes "list_all is_digit xs" "xs = [] \<or> hd xs \<noteq> CHR ''0''"
    and "list_all is_digit ys" "ys = [] \<or> hd ys \<noteq> CHR ''0''"
    and "digits_value 0 xs = digits_value 0 ys"
  shows "xs = ys"
  using assms
proof (induction xs arbitrary: ys rule: rev_induct)
  case Nil
  show ?case
  proof (cases "ys = []")
    case True then show ?thesis by simp
  next
    case False
    with Nil digits_value_pos [of ys] show ?thesis by simp
  qed
next
  case (snoc c xs)
  have px: "0 < digits_value 0 (xs @ [c])"
    using snoc.prems(1,2) by (intro digits_value_pos) auto
  then have "ys \<noteq> []" using snoc.prems(5) by auto
  then obtain zs d where ys: "ys = zs @ [d]" by (metis rev_exhaust)
  have dc: "is_digit c" "is_digit d" "list_all is_digit xs" "list_all is_digit zs"
    using snoc.prems(1,3) ys by simp_all
  have eq: "digits_value 0 xs * 10 + (of_char c - 48) = digits_value 0 zs * 10 + (of_char d - 48)"
    using snoc.prems(5) ys by (simp add: digits_value_snoc)
  from dc(1,2) eq have cd: "(of_char c :: int) = of_char d" and v: "digits_value 0 xs = digits_value 0 zs"
    unfolding is_digit_def by presburger+
  from cd have "c = d" by (simp only: of_char_eq_iff)
  moreover have "xs = zs"
  proof (rule snoc.IH [OF dc(3) _ dc(4) _ v])
    show "xs = [] \<or> hd xs \<noteq> CHR ''0''" using snoc.prems(2) by (cases xs) auto
    show "zs = [] \<or> hd zs \<noteq> CHR ''0''" using snoc.prems(4) ys by (cases zs) auto
  qed
  ultimately show ?case using ys by simp
qed

lemma digit_string_inj:
  assumes "digit_string xs" "digit_string ys" "digits_value 0 xs = digits_value 0 ys"
  shows "xs = ys"
proof (cases "xs = ''0''")
  case True
  show ?thesis
  proof (cases "ys = ''0''")
    case True with \<open>xs = ''0''\<close> show ?thesis by simp
  next
    case False
    with assms(2) digits_value_pos [of ys] have "0 < digits_value 0 ys"
      by (simp add: digit_string_def)
    with True assms(3) show ?thesis by simp
  qed
next
  case False
  with assms(1) have x: "list_all is_digit xs" "xs \<noteq> []" "hd xs \<noteq> CHR ''0''"
    by (simp_all add: digit_string_def)
  show ?thesis
  proof (cases "ys = ''0''")
    case True
    with x digits_value_pos [of xs] assms(3) show ?thesis by simp
  next
    case False
    with assms(2) have y: "list_all is_digit ys" "ys \<noteq> []" "hd ys \<noteq> CHR ''0''"
      by (simp_all add: digit_string_def)
    from x y assms(3) show ?thesis by (intro digits_value_inj) simp_all
  qed
qed

lemma decimal_text_unique:
  assumes "decimal_text i s" "decimal_text i t"
  shows "s = t"
proof -
  from assms obtain c cs d ds where s: "s = c # cs" and t: "t = d # ds"
    by (cases s; cases t) (simp_all add: decimal_text_def)
  show ?thesis
  proof (cases "i < 0")
    case True
    with assms s t have "c = CHR ''-''" "d = CHR ''-''" "digit_string cs" "digit_string ds"
        "digits_value 0 cs = digits_value 0 ds"
      by (simp_all add: decimal_text_def split: if_splits)
    with digit_string_inj [of cs ds] s t show ?thesis by simp
  next
    case False
    with assms s t have "digit_string s" "digit_string t" "digits_value 0 s = digits_value 0 t"
      by (simp_all add: decimal_text_def split: if_splits)
    then show ?thesis by (rule digit_string_inj)
  qed
qed

lemma not_in_tables:
  "i < 0 \<or> 35 < i \<Longrightarrow>
   map_of readme_counter_types i = None \<and> map_of unlisted_counter_types i = None"
  by (auto simp: readme_counter_types_def unlisted_counter_types_def)

text \<open>
  C8 as stated fails for the documented table, the table \<open>Counter Types\<close> of the README:
  type id 18 is not in it (nor is a kind for it in the list of kinds in section 4.1 of
  the specification), and \<open>parseCounterType\<close> gives it the kind \<open>unblocked_publications\<close>
  of the \<open>switch\<close>, not \<open>unknown_18\<close>. Type id 16 is not in the README's table either
  and gets \<open>free_fails\<close>, not \<open>unknown_16\<close>.
\<close>

theorem parseCounterType_unlisted_is_named:
  "map_of readme_counter_types 18 = None
   \<and> parseCounterType 18 = ''unblocked_publications''
   \<and> parseCounterType 18 \<noteq> ''unknown_18''
   \<and> map_of readme_counter_types 16 = None
   \<and> parseCounterType 16 = ''free_fails''
   \<and> parseCounterType 16 \<noteq> ''unknown_16''"
  by (simp add: readme_counter_types_def parseCounterType_def)

text \<open>
  C8, amended: \<open>parseCounterType\<close> is total and never returns the empty string. A
  \<open>typeId\<close> in the README's table gets the kind the table documents; the ten type ids
  16 to 20, 22, 23, 27, 29 and 31, which the table does not list, get the further kinds
  the \<open>switch\<close> names; every other \<open>typeId\<close>, that is every one below 0 or above 35, gets
  \<open>unknown_\<close> followed by the decimal text of \<open>typeId\<close>, the one string that is a
  decimal text of it.
\<close>

theorem parseCounterType_total:
  "parseCounterType typeId \<noteq> []
   \<and> (case map_of readme_counter_types (sint typeId) of
         Some kind \<Rightarrow> parseCounterType typeId = kind
       | None \<Rightarrow>
           (case map_of unlisted_counter_types (sint typeId) of
              Some kind \<Rightarrow> parseCounterType typeId = kind
            | None \<Rightarrow>
                (sint typeId < 0 \<or> 35 < sint typeId)
                \<and> (\<exists>s. parseCounterType typeId = ''unknown_'' @ s
                         \<and> decimal_text (sint typeId) s)
                \<and> (\<exists>!s. decimal_text (sint typeId) s)))"
proof
  show "parseCounterType typeId \<noteq> []"
    by (simp add: parseCounterType_def Let_def)
next
  show "case map_of readme_counter_types (sint typeId) of
         Some kind \<Rightarrow> parseCounterType typeId = kind
       | None \<Rightarrow>
           (case map_of unlisted_counter_types (sint typeId) of
              Some kind \<Rightarrow> parseCounterType typeId = kind
            | None \<Rightarrow>
                (sint typeId < 0 \<or> 35 < sint typeId)
                \<and> (\<exists>s. parseCounterType typeId = ''unknown_'' @ s
                         \<and> decimal_text (sint typeId) s)
                \<and> (\<exists>!s. decimal_text (sint typeId) s))"
  proof (cases "0 \<le> sint typeId \<and> sint typeId \<le> 35")
    case False
    then have out: "sint typeId < 0 \<or> 35 < sint typeId" by arith
    from out have "parseCounterType typeId = ''unknown_'' @ Sprintf_d (sint typeId)"
      by (auto simp: parseCounterType_def Let_def)
    moreover have "\<exists>!s. decimal_text (sint typeId) s"
      using Sprintf_d_decimal [of "sint typeId"] decimal_text_unique [of "sint typeId"]
      by blast
    ultimately show ?thesis
      using out not_in_tables [OF out] Sprintf_d_decimal [of "sint typeId"] by simp
  next
    case True
    then have "sint typeId = 0 \<or> sint typeId = 1 \<or> sint typeId = 2 \<or> sint typeId = 3
        \<or> sint typeId = 4 \<or> sint typeId = 5 \<or> sint typeId = 6 \<or> sint typeId
        = 7 \<or> sint typeId = 8 \<or> sint typeId = 9 \<or> sint typeId = 10 \<or> sint
        typeId = 11 \<or> sint typeId = 12 \<or> sint typeId = 13 \<or> sint typeId = 14
        \<or> sint typeId = 15 \<or> sint typeId = 16 \<or> sint typeId = 17 \<or> sint
        typeId = 18 \<or> sint typeId = 19 \<or> sint typeId = 20 \<or> sint typeId = 21
        \<or> sint typeId = 22 \<or> sint typeId = 23 \<or> sint typeId = 24 \<or> sint
        typeId = 25 \<or> sint typeId = 26 \<or> sint typeId = 27 \<or> sint typeId = 28
        \<or> sint typeId = 29 \<or> sint typeId = 30 \<or> sint typeId = 31 \<or> sint
        typeId = 32 \<or> sint typeId = 33 \<or> sint typeId = 34 \<or> sint typeId = 35"
      by arith
    then show ?thesis
      by (elim disjE)
        (simp_all add: parseCounterType_def readme_counter_types_def unlisted_counter_types_def)
  qed
qed

lemma Sprintf_d_examples: "Sprintf_d 999 = ''999'' \<and> Sprintf_d (- 5) = ''-5''"
  by code_simp

theorem parseCounterType_total_witness:
  "parseCounterType 14 = ''errors'' \<and> parseCounterType 16 = ''free_fails''
   \<and> (\<exists>s. parseCounterType 999 = ''unknown_'' @ s \<and> decimal_text 999 s)
   \<and> (\<exists>!s. decimal_text 999 s)
   \<and> parseCounterType 999 = ''unknown_999'' \<and> decimal_text 999 ''999''
   \<and> parseCounterType (- 5) = ''unknown_-5'' \<and> decimal_text (- 5) ''-5''"
proof -
  have e: "parseCounterType 999 = ''unknown_999''" "parseCounterType (- 5) = ''unknown_-5''"
    by (simp_all add: parseCounterType_def Sprintf_d_examples)
  have d: "decimal_text 999 ''999''" "decimal_text (- 5) ''-5''"
    by (simp_all add: decimal_text_def digit_string_def is_digit_def)
  from parseCounterType_total [of 14] parseCounterType_total [of 16]
  have listed: "parseCounterType 14 = ''errors'' \<and> parseCounterType 16 = ''free_fails''"
    by (simp add: readme_counter_types_def unlisted_counter_types_def)
  from parseCounterType_total [of 999]
  have other: "(\<exists>s. parseCounterType 999 = ''unknown_'' @ s \<and> decimal_text 999 s)
               \<and> (\<exists>!s. decimal_text 999 s)"
    by (simp add: readme_counter_types_def unlisted_counter_types_def)
  from listed other e d show ?thesis
    by (simp only: simp_thms)
qed

section \<open>Properties of the label parser\<close>

lemma Index_ge: "- 1 \<le> Index s sub"
  by (induction s) (auto simp: Let_def)

lemma Index_bound: "0 \<le> Index s sub \<Longrightarrow> Index s sub + int (length sub) \<le> int (length s)"
  by (induction s) (auto simp: Let_def split: if_splits dest: prefix_length_le)

lemma Index_prefix: "0 \<le> Index s sub \<Longrightarrow> prefix sub (drop (nat (Index s sub)) s)"
proof (induction s)
  case Nil
  then show ?case by (simp split: if_splits)
next
  case (Cons c s)
  show ?case
  proof (cases "prefix sub (c # s)")
    case True
    then show ?thesis by simp
  next
    case False
    with Cons.prems have i: "0 \<le> Index s sub"
      by (simp add: Let_def split: if_splits)
    with False have "Index (c # s) sub = Index s sub + 1"
      by (simp add: Let_def)
    with i Cons.IH show ?thesis
      by (simp add: nat_add_distrib)
  qed
qed

lemma Index_space:
  "Index s [c] = (if c \<in> set s then int (length (takeWhile (\<lambda>x. x \<noteq> c) s)) else - 1)"
  by (induction s) (auto simp: Let_def)

lemma take_to_sep:
  "take (nat (if Index s [c] = - 1 then int (length s) else Index s [c])) s = takeWhile (\<lambda>x. x \<noteq> c) s"
proof (cases "c \<in> set s")
  case True
  then show ?thesis
    by (simp add: Index_space takeWhile_eq_take [symmetric])
next
  case False
  then have tw: "takeWhile (\<lambda>x. x \<noteq> c) s = s"
    by (induction s) auto
  from False show ?thesis
    by (simp add: Index_space tw)
qed

lemma sep_end_bound:
  "0 \<le> (if Index s [c] = - 1 then int (length s) else Index s [c]) \<and>
   (if Index s [c] = - 1 then int (length s) else Index s [c]) \<le> int (length s)"
  using Index_ge [of s "[c]"] Index_bound [of s "[c]"] by auto

lemma slice_from_Some:
  "0 \<le> lo \<Longrightarrow> lo \<le> int (length s) \<Longrightarrow> slice_from s lo = Some (drop (nat lo) s)"
  by (simp add: slice_from_def slice_of_def)

lemma slice_to_Some:
  "0 \<le> hi \<Longrightarrow> hi \<le> int (length s) \<Longrightarrow> slice_to s hi = Some (take (nat hi) s)"
  by (simp add: slice_to_def slice_of_def)

lemma slice_of_Some:
  "0 \<le> lo \<Longrightarrow> 0 \<le> n \<Longrightarrow> lo + n \<le> int (length s) \<Longrightarrow>
   slice_of s lo (lo + n) = Some (take (nat n) (drop (nat lo) s))"
  by (simp add: slice_of_def)

text \<open>What the code computes after a marker is the specification's text.\<close>

lemma slice_from_marker:
  assumes c: "Contains s marker" and n: "n = int (length marker)"
  shows "slice_from s (Index s marker + n) = Some (drop (nat (Index s marker) + length marker) s)"
proof -
  have i0: "0 \<le> Index s marker" using c by (simp add: Contains_def)
  have "0 \<le> Index s marker + n" and "Index s marker + n \<le> int (length s)"
    using i0 Index_bound [OF i0] n by simp_all
  then have "slice_from s (Index s marker + n) = Some (drop (nat (Index s marker + n)) s)"
    by (rule slice_from_Some)
  then show ?thesis
    using i0 n by (simp add: nat_add_distrib)
qed

lemma slice_after_marker:
  assumes c: "Contains s marker" and n: "n = int (length marker)"
    and r: "r = drop (nat (Index s marker) + length marker) s"
  shows "slice_of s (Index s marker + n)
           (Index s marker + n + (if Index r [sep] = - 1 then int (length r) else Index r [sep]))
         = Some (text_after sep marker s)"
proof -
  define start where "start = Index s marker + n"
  define e where "e = (if Index r [sep] = - 1 then int (length r) else Index r [sep])"
  have i0: "0 \<le> Index s marker" using c by (simp add: Contains_def)
  have s0: "0 \<le> start" and s1: "start \<le> int (length s)"
    using i0 Index_bound [OF i0] n by (simp_all add: start_def)
  have r_eq: "r = drop (nat start) s"
    using i0 n r by (simp add: start_def nat_add_distrib)
  have e0: "0 \<le> e" and e1: "e \<le> int (length r)"
    using sep_end_bound [of r sep] by (simp_all add: e_def)
  have e2: "start + e \<le> int (length s)"
    using e1 s0 s1 by (simp add: r_eq)
  have "slice_of s start (start + e) = Some (take (nat e) r)"
    using slice_of_Some [OF s0 e0 e2] by (simp add: r_eq)
  moreover have "take (nat e) r = text_after sep marker s"
    using take_to_sep [of r sep] r by (simp add: e_def text_after_def)
  ultimately have "slice_of s start (start + e) = Some (text_after sep marker s)"
    by simp
  then show ?thesis
    by (simp only: start_def e_def)
qed

lemma extract_after:
  assumes c: "Contains s marker" and n: "n = int (length marker)"
  shows "(slice_from s (Index s marker + n) \<bind>
           (\<lambda>rest. slice_of s (Index s marker + n)
                      (Index s marker + n +
                       (if Index rest [sep] = - 1 then int (length rest) else Index rest [sep]))
                    \<bind> f))
         = f (text_after sep marker s)"
  using slice_from_marker [OF c n] slice_after_marker [OF c n refl, of sep]
  by simp

lemma parseIdField_spec:
  assumes "markerLen = int (length marker)"
  shows "parseIdField marker markerLen field label parsed =
     Some (case id_spec marker label of
             None \<Rightarrow> parsed
           | Some n \<Rightarrow> parsed\<lparr>flds := (flds parsed)(field \<mapsto> Int64Field n)\<rparr>)"
proof (cases "Contains label marker")
  case False
  then show ?thesis by (simp add: parseIdField_def id_spec_def)
next
  case True
  show ?thesis
    using True
    by (simp add: parseIdField_def id_spec_def Let_def extract_after [OF True assms]
        split: option.splits)
qed

lemma channel_slice:
  assumes c: "Contains label ''aeron:''"
    and c0: "c0 = drop (nat (Index label ''aeron:'')) label"
  shows "(if Index c0 '' '' > 0 then slice_to c0 (Index c0 '' '') else Some c0)
         = Some (channel_spec label)"
proof -
  have i0: "0 \<le> Index label ''aeron:''" using c by (simp add: Contains_def)
  have "prefix ''aeron:'' c0"
    using Index_prefix [OF i0] by (simp add: c0)
  then obtain r where c0_eq: "c0 = ''aeron:'' @ r"
    by (auto simp: prefix_def)
  have tw: "channel_spec label = takeWhile (\<lambda>x. x \<noteq> CHR '' '') c0"
    by (simp add: channel_spec_def c0)
  show ?thesis
  proof (cases "CHR '' '' \<in> set c0")
    case True
    then have ix: "Index c0 '' '' = int (length (takeWhile (\<lambda>x. x \<noteq> CHR '' '') c0))"
      by (simp add: Index_space)
    have pos: "0 < Index c0 '' ''"
      unfolding ix by (simp add: c0_eq)
    have le: "Index c0 '' '' \<le> int (length c0)"
      unfolding ix by (simp add: length_takeWhile_le)
    have "slice_to c0 (Index c0 '' '') = Some (take (nat (Index c0 '' '')) c0)"
      using pos le by (simp add: slice_to_Some)
    also have "take (nat (Index c0 '' '')) c0 = takeWhile (\<lambda>x. x \<noteq> CHR '' '') c0"
      unfolding ix by (simp add: takeWhile_eq_take [symmetric])
    finally show ?thesis using pos by (simp add: tw)
  next
    case False
    then have tw0: "takeWhile (\<lambda>x. x \<noteq> CHR '' '') c0 = c0"
      by (induction c0) auto
    from False show ?thesis by (simp add: Index_space tw tw0)
  qed
qed

lemma channel_from:
  assumes c: "Contains label ''aeron:''"
  shows "slice_from label (Index label ''aeron:'') = Some (drop (nat (Index label ''aeron:'')) label)"
proof -
  have i0: "0 \<le> Index label ''aeron:''" using c by (simp add: Contains_def)
  have i1: "Index label ''aeron:'' \<le> int (length label)"
    using Index_bound [OF i0] by simp
  show ?thesis using slice_from_Some [OF i0 i1] .
qed

lemma parseChannel_spec:
  "parseChannel label parsed =
     Some (if Contains label ''aeron:'' then
             (let ch = channel_spec label;
                  p1 = parsed\<lparr>tags := (tags parsed)(''channel'' \<mapsto> ch)\<rparr> in
              if Contains ch ''endpoint=''
              then p1\<lparr>tags := (tags p1)(''endpoint'' \<mapsto> text_after (CHR ''&'') ''endpoint='' ch)\<rparr>
              else p1)
           else parsed)"
proof (cases "Contains label ''aeron:''")
  case False
  then show ?thesis by (simp add: parseChannel_def)
next
  case True
  then have i0: "0 \<le> Index label ''aeron:''" by (simp add: Contains_def)
  note ch = channel_from [OF True] channel_slice [OF True refl]
  show ?thesis
  proof (cases "Contains (channel_spec label) ''endpoint=''")
    case False
    then show ?thesis
      using True i0 ch by (simp add: parseChannel_def Let_def)
  next
    case ep: True
    have n: "(9::int) = int (length ''endpoint='')" by simp
    show ?thesis
      using True i0 ch ep
      by (simp add: parseChannel_def Let_def extract_after [OF ep n])
  qed
qed


lemma parseCounterLabel_spec: "parseCounterLabel label = Some (parse_spec label)"
  by (simp add: parseCounterLabel_def parseChannel_spec parseIdField_spec parse_spec_def
      tags_spec_def flds_spec_def Let_def split: option.splits)

lemma dom_flds_spec: "dom (flds_spec label) \<subseteq> {''label'', ''stream_id'', ''session_id''}"
  by (auto simp: flds_spec_def Let_def split: option.splits if_splits)

lemma dom_tags_spec: "dom (tags_spec label) \<subseteq> {''channel'', ''endpoint''}"
  by (auto simp: tags_spec_def Let_def split: if_splits)

text \<open>
  C9: for every label, \<open>parseCounterLabel\<close> returns (no slice expression is out of
  range), and what it returns is the specification's parse: the field \<open>label\<close> is the
  input string, \<open>stream_id\<close> and \<open>session_id\<close> are present exactly when their marker is
  there and the text after it parses as an integer, and nothing but \<open>channel\<close>,
  \<open>endpoint\<close>, \<open>label\<close>, \<open>stream_id\<close> and \<open>session_id\<close> is ever set.
\<close>

theorem parseCounterLabel_total:
  "parseCounterLabel label = Some (parse_spec label)
   \<and> flds (parse_spec label) ''label'' = Some (StringField label)
   \<and> flds (parse_spec label) ''stream_id'' = map_option Int64Field (id_spec ''stream-id='' label)
   \<and> flds (parse_spec label) ''session_id'' = map_option Int64Field (id_spec ''session-id='' label)
   \<and> dom (flds (parse_spec label)) \<subseteq> {''label'', ''stream_id'', ''session_id''}
   \<and> dom (tags (parse_spec label)) \<subseteq> {''channel'', ''endpoint''}"
proof -
  have "flds (parse_spec label) ''label'' = Some (StringField label)"
    by (simp add: parse_spec_def flds_spec_def Let_def split: option.splits)
  moreover have "flds (parse_spec label) ''stream_id'' = map_option Int64Field (id_spec ''stream-id='' label)"
    by (simp add: parse_spec_def flds_spec_def Let_def split: option.splits)
  moreover have "flds (parse_spec label) ''session_id'' = map_option Int64Field (id_spec ''session-id='' label)"
    by (simp add: parse_spec_def flds_spec_def Let_def split: option.splits)
  ultimately show ?thesis
    using parseCounterLabel_spec [of label] dom_flds_spec [of label] dom_tags_spec [of label]
    by (simp add: parse_spec_def)
qed

text \<open>
  The examples of the plugin's test of \<open>parseCounterLabel\<close>: a label with no pattern, a
  label that is a channel with an endpoint and a stream id, and the same after a prefix.
\<close>

theorem parseCounterLabel_examples:
  "map_option (\<lambda>p. (tags p ''channel'', tags p ''endpoint'', flds p ''stream_id'', flds p ''label''))
     (parseCounterLabel ''Simple label'')
   = Some (None, None, None, Some (StringField ''Simple label''))
   \<and> map_option (\<lambda>p. (tags p ''channel'', tags p ''endpoint'', flds p ''stream_id'', flds p ''label''))
     (parseCounterLabel ''aeron:udp?endpoint=localhost:40123 stream-id=10'')
   = Some (Some ''aeron:udp?endpoint=localhost:40123'', Some ''localhost:40123'',
           Some (Int64Field 10),
           Some (StringField ''aeron:udp?endpoint=localhost:40123 stream-id=10''))
   \<and> map_option (\<lambda>p. (tags p ''channel'', tags p ''endpoint'', flds p ''stream_id'', flds p ''label''))
     (parseCounterLabel ''Publication: aeron:udp?endpoint=localhost:40123 stream-id=10'')
   = Some (Some ''aeron:udp?endpoint=localhost:40123'', Some ''localhost:40123'',
           Some (Int64Field 10),
           Some (StringField ''Publication: aeron:udp?endpoint=localhost:40123 stream-id=10''))"
  by code_simp

section \<open>Properties of the collection cycle\<close>

lemma getMeasurementName_spec: "getMeasurementName t k = bucketFor_spec (sint t)"
  by (simp add: getMeasurementName_def bucketFor_spec_def bucket_table_def Let_def)

lemma bucket_not_summary: "bucketFor_spec t \<noteq> ''aeron_stat_summary''"
  by (simp add: bucketFor_spec_def bucket_table_def)

lemma parseCounterType_nonempty: "parseCounterType t \<noteq> []"
  by (simp add: parseCounterType_def Let_def)

lemma onCounter_spec:
  "onCounter a c (n, acc) = Some (n + 1, acc @ [counterRecord a c])"
  by (simp add: onCounter_def counterRecord_def parseCounterLabel_spec parse_spec_def
      parseCounterType_nonempty getMeasurementName_spec Let_def)

lemma Scan_onCounter:
  "Scan (onCounter a) cs (n, acc) = Some (n + int (length cs), acc @ map (counterRecord a) cs)"
proof (induction cs arbitrary: n acc)
  case Nil
  show ?case by simp
next
  case (Cons c cs)
  show ?case by (simp add: onCounter_spec Cons.IH)
qed

text \<open>
  C6: a cycle over an initialised reader that yields the counters \<open>cs\<close> adds to the
  accumulator one record per counter, in order, and then exactly one more record, in
  measurement \<open>aeron_stat_summary\<close>, whose field \<open>total_counters\<close> is the number of
  counters; no per-counter record is in that measurement.
\<close>

theorem collectCounters_summary:
  assumes "reader a = Some cs"
  shows "collectCounters a acc =
           Some (None, acc @ map (counterRecord a) cs @ [summaryRecord a (int (length cs))])
         \<and> length (map (counterRecord a) cs) = length cs
         \<and> list_all (\<lambda>p. measurement p \<noteq> ''aeron_stat_summary'') (map (counterRecord a) cs)
         \<and> measurement (summaryRecord a (int (length cs))) = ''aeron_stat_summary''
         \<and> pfields (summaryRecord a (int (length cs))) ''total_counters''
             = Some (IntField (int (length cs)))"
proof -
  have "collectCounters a acc =
           Some (None, acc @ map (counterRecord a) cs @ [summaryRecord a (int (length cs))])"
    using assms by (simp add: collectCounters_def Scan_onCounter summaryRecord_def)
  moreover have "list_all (\<lambda>p. measurement p \<noteq> ''aeron_stat_summary'') (map (counterRecord a) cs)"
    by (simp add: list_all_iff counterRecord_def bucket_not_summary)
  ultimately show ?thesis
    by (simp add: summaryRecord_def)
qed

theorem collectCounters_summary_witness:
  "reader stat0 \<noteq> None \<and>
   (case collectCounters stat0 [] of
      Some (None, ps) \<Rightarrow> map measurement ps = [''aeron_bytes'', ''aeron_counter'', ''aeron_stat_summary'']
         \<and> pfields (last ps) ''total_counters'' = Some (IntField 2)
    | _ \<Rightarrow> False)"
  using collectCounters_summary [of stat0 "the (reader stat0)" "[]"]
  by (simp add: stat0_def counterRecord_def summaryRecord_def bucketFor_spec_def bucket_table_def)

section \<open>Properties of the subscriber\<close>

lemma Start_currentAccumulator:
  "currentAccumulator (fst (snd (Start a acc d))) = currentAccumulator a"
  by (cases d) (simp_all add: Start_def connect_def)

lemma handler_never_delivers:
  "currentAccumulator a = None \<Longrightarrow> createFragmentHandler a m = Some es \<Longrightarrow>
   \<not> list_ex (delivers_to acc) es"
  by (auto simp: createFragmentHandler_def getAccumulator_def split: option.splits)

lemma handleMessages_never_delivers:
  "currentAccumulator a = None \<Longrightarrow> handleMessages a ms = Some es \<Longrightarrow>
   \<not> list_ex (delivers_to acc) es"
proof (induction ms arbitrary: es)
  case Nil
  then show ?case by simp
next
  case (Cons m ms)
  from Cons.prems(2) obtain e1 e2 where
    e1: "createFragmentHandler a m = Some e1" and e2: "handleMessages a ms = Some e2"
    and es: "es = e1 @ e2"
    by (auto simp: bind_eq_Some_conv)
  from handler_never_delivers [OF Cons.prems(1) e1] Cons.IH [OF Cons.prems(1) e2] es
  show ?case by simp
qed

lemma pollLoop_never_delivers:
  "currentAccumulator a = None \<Longrightarrow> pollLoop a i polls = Some es \<Longrightarrow>
   \<not> list_ex (delivers_to acc) es"
proof (induction polls arbitrary: es)
  case Nil
  then show ?case by auto
next
  case (Cons p polls)
  obtain n msgs where p: "p = (n, msgs)" by (cases p)
  from Cons.prems(2) p obtain e1 e2 where
    e1: "handleMessages a msgs = Some e1" and e2: "pollLoop a i polls = Some e2"
    and es: "es = e1 @ [IdleCalled i n] @
           (if n > 0 then [LogDebugf ''Read %d fragments'' [n]] else []) @ e2"
    by (auto simp: bind_eq_Some_conv)
  from handleMessages_never_delivers [OF Cons.prems(1) e1] Cons.IH [OF Cons.prems(1) e2] es
  show ?case by simp
qed

text \<open>
  However the run goes, a plugin whose \<open>currentAccumulator\<close> is \<open>nil\<close> when \<open>Start\<close> is
  called delivers no metric to any accumulator: \<open>Start\<close> does not set the field and
  \<open>consume\<close> does not use the accumulator it is given.
\<close>

lemma consume_never_delivers:
  assumes "currentAccumulator a = None"
    and "consume (fst (snd (Start a acc d))) acc polls = Some es"
  shows "\<not> list_ex (delivers_to acc') es"
proof -
  let ?a = "fst (snd (Start a acc d))"
  have n: "currentAccumulator ?a = None"
    using assms(1) by (simp add: Start_currentAccumulator)
  show ?thesis
  proof (cases "createIdleStrategy ?a")
    case (Inl err)
    with assms(2) show ?thesis by (auto simp: consume_def)
  next
    case (Inr i)
    with assms(2) obtain e where "pollLoop ?a i polls = Some e"
      and "es = LogInfo ''Starting message consumption goroutine'' # e"
      by (auto simp: consume_def bind_eq_Some_conv)
    with pollLoop_never_delivers [OF n, of i polls e acc'] show ?thesis by simp
  qed
qed

theorem consume_never_delivers_witness:
  "currentAccumulator (snd (Init sub1)) = None
   \<and> (\<exists>es. consume (fst (snd (Start (snd (Init sub1)) 7 DriverUp))) 7
               [(0, []), (2, [''cpu usage=1'', ''mem used=2''])] = Some es
           \<and> \<not> list_ex (delivers_to 7) es)"
proof -
  let ?a = "snd (Init sub1)"
  have n: "currentAccumulator ?a = None"
    by (simp add: sub1_def newAeronSubscriber_def SetParser_def Init_def)
  obtain es where es: "consume (fst (snd (Start ?a 7 DriverUp))) 7
               [(0, []), (2, [''cpu usage=1'', ''mem used=2''])] = Some es"
    by (simp add: sub1_def newAeronSubscriber_def SetParser_def Init_def Start_def connect_def
        consume_def createIdleStrategy_def createFragmentHandler_def getAccumulator_def)
  from consume_never_delivers [OF n es, of 7] n es show ?thesis by blast
qed

text \<open>
  C1, on the code: the plugin is configured, \<open>Init\<close> and \<open>Start\<close> with
  accumulator 7 succeed, and one poll completes one message that the parser decodes
  into one metric. The fragment handler logs the fragment and adds nothing: no event of
  the run delivers a metric to accumulator 7.
\<close>

theorem Start_then_message_delivers_nothing:
  "(case Init sub1 of (ierr, a1) \<Rightarrow>
      (case Start a1 7 DriverUp of (serr, a2, g) \<Rightarrow>
         ierr = None \<and> serr = None \<and> g = Some 7
         \<and> map_option (\<lambda>parse. parse ''cpu usage=1'') (parser a2) = Some (Some [''cpu usage=1''])
         \<and> createFragmentHandler a2 ''cpu usage=1''
             = Some [LogDebugf ''Received fragment: offset=%d, length=%d, sessionId=%d'' []]
         \<and> (case consume a2 7 [(1, [''cpu usage=1''])] of
               Some es \<Rightarrow> \<not> list_ex (delivers_to 7) es
             | None \<Rightarrow> False)))"
  by (simp add: sub1_def newAeronSubscriber_def SetParser_def Init_def Start_def connect_def
      consume_def createIdleStrategy_def createFragmentHandler_def getAccumulator_def)







text \<open>
  C10 as stated fails: the plugin as the factory builds it was never started, its
  cancel function and wait group are \<open>nil\<close>, and so is its logger; \<open>Stop\<close> on it
  panics at its first statement, the log call.
\<close>

theorem Stop_zero_value_panics:
  "cancel newAeronSubscriber = None \<and> wg newAeronSubscriber = None
   \<and> Log newAeronSubscriber = None \<and> Stop newAeronSubscriber = None"
  by (simp add: newAeronSubscriber_def Stop_def)

text \<open>
  C10, amended: \<open>Stop\<close> on a plugin whose logger is set and whose cancel function and
  wait group are \<open>nil\<close> returns: it logs its two lines and calls neither the cancel
  function nor \<open>Wait\<close>.
\<close>

theorem Stop_not_started:
  assumes "Log a \<noteq> None" and "cancel a = None" and "wg a = None"
  shows "\<exists>es. Stop a = Some es
           \<and> es = [LogInfo ''Stopping Aeron subscriber plugin'',
                   LogInfo ''Aeron subscriber plugin stopped'']
           \<and> \<not> List.member es CancelCalled \<and> \<not> List.member es WaitCalled"
  using assms by (auto simp: Stop_def)

theorem Stop_not_started_witness:
  "Log sub_logger_only \<noteq> None \<and> cancel sub_logger_only = None \<and> wg sub_logger_only = None
   \<and> Stop sub_logger_only = Some [LogInfo ''Stopping Aeron subscriber plugin'',
                                   LogInfo ''Aeron subscriber plugin stopped'']"
proof -
  have l: "Log sub_logger_only \<noteq> None" and c: "cancel sub_logger_only = None"
    and w: "wg sub_logger_only = None"
    by (simp_all add: sub_logger_only_def newAeronSubscriber_def)
  from Stop_not_started [OF l c w] l c w show ?thesis by auto
qed

section \<open>Properties of the publisher\<close>

lemmas result_codes = NotConnected_def BackPressured_def AdminAction_def PublicationClosed_def

text \<open>One pass through the loop body, for a publication that is there.\<close>

lemma publishLoop_unfold:
  assumes "attempt \<le> MaxRetries a" and "publication a = Some tr"
  shows "publishLoop data attempt delay lastErr a =
     (let result = tr (length (offered a)) data;
          a2 = (beforeOffer a attempt delay)\<lparr>offered := offered a @ [data]\<rparr>;
          delay1 = nextDelay a attempt delay
      in if result = BackPressured then
           publishLoop data (attempt + 1) delay1 (Some BackpressureErr)
             (a2\<lparr>backpressureErrors := backpressureErrors a + 1\<rparr>)
         else if result = NotConnected then
           publishLoop data (attempt + 1) delay1 (Some PublicationNotConnected)
             (a2\<lparr>connectionErrors := connectionErrors a + 1\<rparr>)
         else if result = AdminAction then
           publishLoop data (attempt + 1) delay1 (Some AdminActionRequired) a2
         else if result = PublicationClosed then
           Some (Some PublicationClosedErr, a2\<lparr>connectionErrors := connectionErrors a + 1\<rparr>)
         else if result > 0 then Some (None, a2)
         else publishLoop data (attempt + 1) delay1 (Some (UnknownResultCode result)) a2)"
  using assms
  by (subst publishLoop.simps)
    (simp add: offerMessage_def beforeOffer_def nextDelay_def Let_def)

lemma publishLoop_exhausted:
  "\<not> attempt \<le> MaxRetries a \<Longrightarrow>
   publishLoop data attempt delay lastErr a = Some (Some (FailedAfterRetries (MaxRetries a) lastErr), a)"
  by (subst publishLoop.simps) simp

lemma afterBackpressure_fields [simp]:
  "MaxRetries (afterBackpressure a n d data) = MaxRetries a"
  "publication (afterBackpressure a n d data) = publication a"
  "offered (afterBackpressure a n d data) = offered a @ [data]"
  "retryAttempts (afterBackpressure a n d data) = retryAttempts a + (if n > 0 then 1 else 0)"
  "slept (afterBackpressure a n d data) = slept a @ (if n > 0 then [d] else [])"
  by (simp_all add: afterBackpressure_def beforeOffer_def)

lemma publishLoop_backpressured:
  assumes "attempt \<le> MaxRetries a" and "publication a = Some tr"
    and "tr (length (offered a)) data = BackPressured"
  shows "publishLoop data attempt delay lastErr a =
         publishLoop data (attempt + 1) (nextDelay a attempt delay) (Some BackpressureErr)
           (afterBackpressure a attempt delay data)"
  using assms(3)
  by (simp add: publishLoop_unfold [OF assms(1,2)] afterBackpressure_def Let_def)

lemma publishLoop_success:
  assumes "attempt \<le> MaxRetries a" and "publication a = Some tr"
    and "0 < tr (length (offered a)) data"
  shows "publishLoop data attempt delay lastErr a =
         Some (None, (beforeOffer a attempt delay)\<lparr>offered := offered a @ [data]\<rparr>)"
  using assms(3)
  by (simp add: publishLoop_unfold [OF assms(1,2)] result_codes Let_def)

lemma publishLoop_closed:
  assumes "attempt \<le> MaxRetries a" and "publication a = Some tr"
    and "tr (length (offered a)) data = PublicationClosed"
  shows "publishLoop data attempt delay lastErr a =
         Some (Some PublicationClosedErr,
               (beforeOffer a attempt delay)\<lparr>offered := offered a @ [data],
                                             connectionErrors := connectionErrors a + 1\<rparr>)"
  using assms(3)
  by (simp add: publishLoop_unfold [OF assms(1,2)] result_codes Let_def)

text \<open>
  C2: with \<open>MaxRetries = 3\<close>, three backpressured offers and then an accepted one make
  \<open>publishMessage\<close> return \<open>nil\<close> with the retry counter three higher; four
  backpressured offers make it return the failed-after-3-retries error that wraps the
  backpressure error; and a first offer answered with publication-closed makes it return
  the publication-closed error after that one offer, with no sleep and no retry counted.
\<close>

theorem publishMessage_max_retries_3:
  assumes m: "MaxRetries a = 3" and p: "publication a = Some tr" and k: "k = length (offered a)"
  shows "(tr k data = BackPressured \<and> tr (k + 1) data = BackPressured
          \<and> tr (k + 2) data = BackPressured \<and> 0 < tr (k + 3) data
          \<longrightarrow> (\<exists>a'. publishMessage a data = Some (None, a')
                     \<and> retryAttempts a' = retryAttempts a + 3))
       \<and> (tr k data = BackPressured \<and> tr (k + 1) data = BackPressured
          \<and> tr (k + 2) data = BackPressured \<and> tr (k + 3) data = BackPressured
          \<longrightarrow> (\<exists>a'. publishMessage a data
                       = Some (Some (FailedAfterRetries 3 (Some BackpressureErr)), a')
                     \<and> retryAttempts a' = retryAttempts a + 3
                     \<and> offered a' = offered a @ [data, data, data, data]))
       \<and> (tr k data = PublicationClosed
          \<longrightarrow> publishMessage a data
                = Some (Some PublicationClosedErr,
                        a\<lparr>offered := offered a @ [data],
                          connectionErrors := connectionErrors a + 1\<rparr>))"
proof (intro conjI impI)
  let ?d0 = "RetryDelay a"
  let ?a1 = "afterBackpressure a 0 ?d0 data"
  let ?d1 = "nextDelay a 0 ?d0"
  let ?a2 = "afterBackpressure ?a1 1 ?d1 data"
  let ?d2 = "nextDelay ?a1 1 ?d1"
  let ?a3 = "afterBackpressure ?a2 2 ?d2 data"
  let ?d3 = "nextDelay ?a2 2 ?d2"
  let ?a4 = "afterBackpressure ?a3 3 ?d3 data"
  let ?d4 = "nextDelay ?a3 3 ?d3"
  have l: "length (offered a) = k" "length (offered ?a1) = k + 1"
    "length (offered ?a2) = k + 2" "length (offered ?a3) = k + 3"
    by (simp_all add: k)
  have mr: "0 \<le> MaxRetries a" "1 \<le> MaxRetries ?a1" "2 \<le> MaxRetries ?a2"
    "3 \<le> MaxRetries ?a3" "\<not> 4 \<le> MaxRetries ?a4"
    by (simp_all add: m)
  have pb: "publication ?a1 = Some tr" "publication ?a2 = Some tr" "publication ?a3 = Some tr"
    by (simp_all add: p)
  have ra: "retryAttempts ?a3 = retryAttempts a + 2" "retryAttempts ?a4 = retryAttempts a + 3"
    by simp_all
  have of4: "offered ?a4 = offered a @ [data, data, data, data]"
    by simp
  {
    assume r: "tr k data = BackPressured \<and> tr (k + 1) data = BackPressured
          \<and> tr (k + 2) data = BackPressured"
    have s1: "publishLoop data 0 ?d0 None a = publishLoop data (0 + 1) ?d1 (Some BackpressureErr) ?a1"
      by (rule publishLoop_backpressured [OF mr(1) p]) (simp add: l r)
    have s2: "publishLoop data 1 ?d1 (Some BackpressureErr) ?a1
              = publishLoop data (1 + 1) ?d2 (Some BackpressureErr) ?a2"
      by (rule publishLoop_backpressured [OF mr(2) pb(1)]) (simp only: l r)
    have s3: "publishLoop data 2 ?d2 (Some BackpressureErr) ?a2
              = publishLoop data (2 + 1) ?d3 (Some BackpressureErr) ?a3"
      by (rule publishLoop_backpressured [OF mr(3) pb(2)]) (simp only: l r)
    have "publishMessage a data = publishLoop data 3 ?d3 (Some BackpressureErr) ?a3"
      using s1 s2 s3 by (simp add: publishMessage_def)
  }
  note three = this
  {
    assume r: "tr k data = BackPressured \<and> tr (k + 1) data = BackPressured
          \<and> tr (k + 2) data = BackPressured \<and> 0 < tr (k + 3) data"
    have "publishLoop data 3 ?d3 (Some BackpressureErr) ?a3
          = Some (None, (beforeOffer ?a3 3 ?d3)\<lparr>offered := offered ?a3 @ [data]\<rparr>)"
      by (rule publishLoop_success [OF mr(4) pb(3)]) (simp only: l r)
    moreover have "retryAttempts ((beforeOffer ?a3 3 ?d3)\<lparr>offered := offered ?a3 @ [data]\<rparr>)
          = retryAttempts a + 3"
      by (simp add: beforeOffer_def)
    moreover from r have "publishMessage a data = publishLoop data 3 ?d3 (Some BackpressureErr) ?a3"
      by (intro three) simp
    ultimately
    show "\<exists>a'. publishMessage a data = Some (None, a') \<and> retryAttempts a' = retryAttempts a + 3"
      by simp
  }
  {
    assume r: "tr k data = BackPressured \<and> tr (k + 1) data = BackPressured
          \<and> tr (k + 2) data = BackPressured \<and> tr (k + 3) data = BackPressured"
    have s4: "publishLoop data 3 ?d3 (Some BackpressureErr) ?a3
              = publishLoop data (3 + 1) ?d4 (Some BackpressureErr) ?a4"
      by (rule publishLoop_backpressured [OF mr(4) pb(3)]) (simp only: l r)
    have "publishLoop data 4 ?d4 (Some BackpressureErr) ?a4
          = Some (Some (FailedAfterRetries (MaxRetries ?a4) (Some BackpressureErr)), ?a4)"
      by (rule publishLoop_exhausted [OF mr(5)])
    moreover from r have "publishMessage a data = publishLoop data 3 ?d3 (Some BackpressureErr) ?a3"
      by (intro three) simp
    ultimately have "publishMessage a data
          = Some (Some (FailedAfterRetries 3 (Some BackpressureErr)), ?a4)"
      using s4 by (simp add: m)
    with ra(2) of4
    show "\<exists>a'. publishMessage a data
                 = Some (Some (FailedAfterRetries 3 (Some BackpressureErr)), a')
               \<and> retryAttempts a' = retryAttempts a + 3
               \<and> offered a' = offered a @ [data, data, data, data]"
      by blast
  }
  {
    assume r: "tr k data = PublicationClosed"
    have "publishLoop data 0 ?d0 None a
          = Some (Some PublicationClosedErr,
               (beforeOffer a 0 ?d0)\<lparr>offered := offered a @ [data],
                                       connectionErrors := connectionErrors a + 1\<rparr>)"
      by (rule publishLoop_closed [OF mr(1) p]) (simp only: l r)
    then show "publishMessage a data
          = Some (Some PublicationClosedErr,
                  a\<lparr>offered := offered a @ [data], connectionErrors := connectionErrors a + 1\<rparr>)"
      by (simp add: publishMessage_def beforeOffer_def)
  }
qed

theorem publishMessage_max_retries_3_witness:
  "(\<exists>a'. publishMessage (pub0 (\<lambda>k d. if k < 3 then BackPressured else 5)) ''m'' = Some (None, a')
         \<and> retryAttempts a' = 3)
   \<and> (\<exists>a'. publishMessage (pub0 (\<lambda>k d. BackPressured)) ''m''
              = Some (Some (FailedAfterRetries 3 (Some BackpressureErr)), a')
         \<and> retryAttempts a' = 3)
   \<and> fst (the (publishMessage (pub0 (\<lambda>k d. PublicationClosed)) ''m'')) = Some PublicationClosedErr"
proof -
  have f: "MaxRetries (pub0 p) = 3" "publication (pub0 p) = Some p"
    "0 = length (offered (pub0 p))" "retryAttempts (pub0 p) = 0" for p
    by (simp_all add: pub0_def)
  show ?thesis
    using publishMessage_max_retries_3 [OF f(1-3), of "\<lambda>k d. if k < 3 then BackPressured else 5" "''m''"]
      publishMessage_max_retries_3 [OF f(1-3), of "\<lambda>k d. BackPressured" "''m''"]
      publishMessage_max_retries_3 [OF f(1-3), of "\<lambda>k d. PublicationClosed" "''m''"]
    by (auto simp: f(4) result_codes)
qed

text \<open>
  C4 as stated fails: with a maximum of 3 bytes, a connected publisher given one metric
  that serializes to 4 bytes counts it as dropped and logs a warning, and \<open>Write\<close>
  returns \<open>nil\<close>: no error reaches the caller.
\<close>

theorem Write_oversize_returns_nil:
  "MaxMessageSize pub_small = 3 \<and> int (length ''abcd'') = 4
   \<and> Write pub_small [''abcd'']
       = Some (None, pub_small\<lparr>messagesDropped := 1, logged := [WarnDropOversize 4 3]\<rparr>)"
  by (simp add: pub_small_def pub0_def Write_def)

text \<open>
  C4, amended: when a metric serializes to more bytes than a positive
  \<open>MaxMessageSize\<close>, the loop of \<open>Write\<close> counts one dropped message, logs a warning and
  goes on with the rest of the batch: nothing is offered to the publication for it, no
  other counter changes, and \<open>Write\<close> of that metric alone returns \<open>nil\<close>.
\<close>

theorem Write_drops_oversize:
  assumes "connected a" and "publication a = Some tr" and "serializer a = Some serialize"
    and "serialize m = Some data"
    and "0 < MaxMessageSize a" and "MaxMessageSize a < int (length data)"
  shows "Write a (m # ms)
           = Write (a\<lparr>messagesDropped := messagesDropped a + 1,
                      logged := logged a @
                        [WarnDropOversize (int (length data)) (MaxMessageSize a)]\<rparr>) ms
         \<and> Write a [m]
           = Some (None, a\<lparr>messagesDropped := messagesDropped a + 1,
                            logged := logged a @
                              [WarnDropOversize (int (length data)) (MaxMessageSize a)]\<rparr>)"
  using assms by (simp add: Write_def)

theorem Write_drops_oversize_witness:
  "connected pub_small \<and> 0 < MaxMessageSize pub_small
   \<and> MaxMessageSize pub_small < int (length ''abcd'')
   \<and> (case Write pub_small [''abcd''] of
         Some (r, a') \<Rightarrow> r = None \<and> messagesDropped a' = 1 \<and> offered a' = []
       | None \<Rightarrow> False)"
proof -
  have f: "connected pub_small" "publication pub_small = Some (\<lambda>k data. 1)"
    "serializer pub_small = Some (\<lambda>m. Some m)" "(\<lambda>m. Some m) ''abcd'' = Some ''abcd''"
    "0 < MaxMessageSize pub_small" "MaxMessageSize pub_small < int (length ''abcd'')"
    by (simp_all add: pub_small_def pub0_def)
  from Write_drops_oversize [OF f, of "[]", THEN conjunct2] f show ?thesis
    by (simp add: pub_small_def pub0_def)
qed

lemma beforeOffer_fields [simp]:
  "MaxRetries (beforeOffer a n d) = MaxRetries a"
  "MaxRetryDelay (beforeOffer a n d) = MaxRetryDelay a"
  "RetryBackoffMultiplier (beforeOffer a n d) = RetryBackoffMultiplier a"
  "outOfRangeInt64 (beforeOffer a n d) = outOfRangeInt64 a"
  "publication (beforeOffer a n d) = publication a"
  "slept (beforeOffer a n d) = slept a @ (if n > 0 then [d] else [])"
  by (simp_all add: beforeOffer_def)

text \<open>
  The float64 arithmetic at work: 1.0 times a delay of \<open>2 ^ 53 + 1\<close> nanoseconds is
  rounded down by the conversion to \<open>float64\<close>, and 2.0 times a delay of \<open>5 * 10 ^ 18\<close>
  is out of the range of \<open>int64\<close>, where the implementation of \<open>pub0\<close> answers with the
  smallest \<open>int64\<close>. On delays as the defaults have them, 2.0 doubles and 0.5 halves.
\<close>

lemma scaleDelay_examples:
  "scaleDelay ((pub0 (\<lambda>k data. 1))\<lparr>RetryBackoffMultiplier := Finite False 1 0\<rparr>) 9007199254740993
     = 9007199254740992
   \<and> scaleDelay (pub0 (\<lambda>k data. 1)) 5000000000000000000 = - 9223372036854775808
   \<and> scaleDelay (pub0 (\<lambda>k data. 1)) 1000000 = 2000000
   \<and> scaleDelay pub_half 1000000 = 500000"
  by code_simp

text \<open>
  With the multiplier 2.0 a delay from 0 to below \<open>2 ^ 53\<close> nanoseconds (104 days) is
  doubled exactly: the conversion to \<open>float64\<close> loses nothing, nor does the product.
\<close>

lemma bit_length_nonpos: "n \<le> 0 \<Longrightarrow> bit_length n = 0"
  by (subst bit_length.simps) simp

lemma bit_length_double: "0 < n \<Longrightarrow> bit_length (2 * n) = Suc (bit_length n)"
  by (subst bit_length.simps) simp

lemma bit_length_shift: "0 < n \<Longrightarrow> bit_length (n * 2 ^ k) = bit_length n + k"
proof (induction k)
  case 0
  show ?case by simp
next
  case (Suc k)
  have e: "n * 2 ^ Suc k = 2 * (n * 2 ^ k)" by simp
  have p: "0 < n * 2 ^ k" using Suc.prems by simp
  show ?case unfolding e bit_length_double [OF p] using Suc by simp
qed

lemma bit_length_bound: "0 \<le> n \<Longrightarrow> n < 2 ^ k \<Longrightarrow> bit_length n \<le> k"
proof (induction k arbitrary: n)
  case 0
  then have "n \<le> 0" by simp
  then show ?case by (simp add: bit_length_nonpos)
next
  case (Suc k)
  show ?case
  proof (cases "n \<le> 0")
    case True
    then show ?thesis by (simp add: bit_length_nonpos)
  next
    case False
    have "n div 2 < 2 ^ k" using Suc.prems by simp
    moreover have "0 \<le> n div 2" using Suc.prems by simp
    ultimately have "bit_length (n div 2) \<le> k" by (rule Suc.IH [rotated])
    with False show ?thesis by (subst bit_length.simps) simp
  qed
qed

lemma bit_length_pos: "0 < n \<Longrightarrow> 0 < bit_length n"
  by (subst bit_length.simps) simp

lemma float64_of_int_exact:
  assumes "0 < d" "d < 2 ^ 53"
  shows "float64_of_int d = Finite False (d * 2 ^ (53 - bit_length d)) (int (bit_length d) - 53)"
proof -
  let ?b = "bit_length d"
  have b: "?b \<le> 53" "0 < ?b" using assms by (simp_all add: bit_length_bound bit_length_pos)
  have bm: "bit_length (d * 2 ^ (53 - ?b)) = 53"
    using assms(1) b by (simp add: bit_length_shift)
  have n: "nat (53 - int ?b) = 53 - ?b" by simp
  have mx: "max (int ?b - 53) (- 1074) = int ?b - 53" using b by simp
  show ?thesis
    using assms(1) b
    by (simp add: float64_of_int_def round_float64_def Let_def mx n bm)
qed

lemma times_two_exact:
  assumes "0 < d" "d < 2 ^ 53"
  shows "fmul (float64_of_int d) (Finite False 1 1)
         = Finite False (d * 2 ^ (53 - bit_length d)) (int (bit_length d) - 52)"
proof -
  let ?b = "bit_length d"
  have b: "?b \<le> 53" "0 < ?b" using assms by (simp_all add: bit_length_bound bit_length_pos)
  have bm: "bit_length (d * 2 ^ (53 - ?b)) = 53"
    using assms(1) b by (simp add: bit_length_shift)
  have mx: "max (int ?b - 52) (- 1074) = int ?b - 52" using b by simp
  show ?thesis
    using b by (simp add: float64_of_int_exact [OF assms] round_float64_def Let_def bm mx)
qed

lemma doubled_back:
  assumes "0 < d" "d < 2 ^ 53"
  shows "int64_of_float64 impl (Finite False (d * 2 ^ (53 - bit_length d)) (int (bit_length d) - 52))
         = 2 * d"
proof -
  let ?b = "bit_length d"
  have b: "?b \<le> 53" "0 < ?b" using assms by (simp_all add: bit_length_bound bit_length_pos)
  have r: "2 * d < 9223372036854775808" "- 9223372036854775808 \<le> 2 * d" using assms by simp_all
  show ?thesis
  proof (cases "52 \<le> ?b")
    case True
    then have "?b = 52 \<or> ?b = 53" using b by arith
    then show ?thesis using r by (auto simp: int64_of_float64_def Let_def)
  next
    case False
    then have k: "nat (52 - int ?b) = 52 - ?b" "53 - ?b = Suc (52 - ?b)" by simp_all
    have "d * 2 ^ (53 - ?b) div 2 ^ (52 - ?b) = 2 * d"
      by (simp add: k(2))
    with False r show ?thesis
      by (simp add: int64_of_float64_def Let_def k(1))
  qed
qed

lemma scaleDelay_doubles:
  assumes "RetryBackoffMultiplier a = Finite False 1 1" "0 \<le> d" "d < 2 ^ 53"
  shows "scaleDelay a d = 2 * d"
proof (cases "d = 0")
  case True
  have "float64_of_int 0 = Finite False 0 (- 53)" by code_simp
  moreover have "fmul (Finite False 0 (- 53)) (Finite False 1 1) = Finite False 0 (- 105)"
    by code_simp
  ultimately show ?thesis using True assms(1)
    by (simp add: scaleDelay_def int64_of_float64_def)
next
  case False
  with assms have p: "0 < d" by simp
  show ?thesis
    by (simp only: scaleDelay_def assms(1) times_two_exact [OF p assms(3)]
        doubled_back [OF p assms(3)])
qed

lemma nextDelay_capped: "d \<le> MaxRetryDelay a \<Longrightarrow> nextDelay a n d \<le> MaxRetryDelay a"
  by (simp add: nextDelay_def Let_def)

lemma nextDelay_grows:
  "d \<le> MaxRetryDelay a \<Longrightarrow> (d \<le> nextDelay a 1 d) = (d \<le> scaleDelay a d)"
  by (auto simp: nextDelay_def Let_def)

lemma nextDelay_same_config:
  assumes "MaxRetryDelay b = MaxRetryDelay a"
    and "RetryBackoffMultiplier b = RetryBackoffMultiplier a"
    and "outOfRangeInt64 b = outOfRangeInt64 a"
  shows "nextDelay b n d = nextDelay a n d"
  using assms by (simp add: nextDelay_def scaleDelay_def Let_def)

lemma delaysFrom_same_config:
  assumes "MaxRetryDelay b = MaxRetryDelay a"
    and "RetryBackoffMultiplier b = RetryBackoffMultiplier a"
    and "outOfRangeInt64 b = outOfRangeInt64 a"
  shows "delaysFrom b d n = delaysFrom a d n"
  by (induction n arbitrary: d) (simp_all add: nextDelay_same_config [OF assms])

lemma delaysFrom_capped:
  "d \<le> MaxRetryDelay a \<Longrightarrow> list_all (\<lambda>x. x \<le> MaxRetryDelay a) (delaysFrom a d n)"
  by (induction n arbitrary: d) (simp_all add: nextDelay_capped)

text \<open>
  A sequence of delays that starts at or below the maximum never goes down exactly
  when scaling shrinks none of its delays but possibly the last, which no retry follows.
\<close>

lemma delaysFrom_sorted:
  "d \<le> MaxRetryDelay a \<Longrightarrow>
   sorted (delaysFrom a d n) = list_all (\<lambda>x. x \<le> scaleDelay a x) (butlast (delaysFrom a d n))"
proof (induction n arbitrary: d)
  case 0
  show ?case by simp
next
  case (Suc n)
  show ?case
  proof (cases n)
    case 0
    then show ?thesis by simp
  next
    case (Suc m)
    let ?d1 = "nextDelay a 1 d"
    have d1: "?d1 \<le> MaxRetryDelay a"
      using Suc.prems by (rule nextDelay_capped)
    have rest: "delaysFrom a ?d1 n = ?d1 # delaysFrom a (nextDelay a 1 ?d1) m"
      using Suc by simp
    have "sorted (delaysFrom a d (Suc n)) = (d \<le> ?d1 \<and> sorted (delaysFrom a ?d1 n))"
      by (auto simp add: rest)
    also have "\<dots> = (d \<le> scaleDelay a d
                  \<and> list_all (\<lambda>x. x \<le> scaleDelay a x) (butlast (delaysFrom a ?d1 n)))"
      using nextDelay_grows [OF Suc.prems] Suc.IH [OF d1] by simp
    also have "\<dots> = list_all (\<lambda>x. x \<le> scaleDelay a x) (butlast (delaysFrom a d (Suc n)))"
      by (simp add: rest)
    finally show ?thesis .
  qed
qed

lemma delaysFrom_doubling:
  assumes "RetryBackoffMultiplier a = Finite False 1 1" and "MaxRetryDelay a < 2 ^ 53"
  shows "0 \<le> d \<Longrightarrow> d \<le> MaxRetryDelay a \<Longrightarrow>
         list_all (\<lambda>x. x \<le> scaleDelay a x) (delaysFrom a d n)"
proof (induction n arbitrary: d)
  case 0
  show ?case by simp
next
  case (Suc n)
  have "d < 2 ^ 53" using Suc.prems(2) assms(2) by simp
  with assms(1) Suc.prems(1) have s: "scaleDelay a d = 2 * d"
    by (rule scaleDelay_doubles)
  have "0 \<le> nextDelay a 1 d" "nextDelay a 1 d \<le> MaxRetryDelay a"
    using Suc.prems by (simp_all add: nextDelay_def Let_def s)
  then have "list_all (\<lambda>x. x \<le> scaleDelay a x) (delaysFrom a (nextDelay a 1 d) n)"
    by (rule Suc.IH)
  with s Suc.prems(1) show ?case by simp
qed

lemma delaysFrom_doubling_sorted:
  assumes "RetryBackoffMultiplier a = Finite False 1 1" and "MaxRetryDelay a < 2 ^ 53"
    and "0 \<le> d" and "d \<le> MaxRetryDelay a"
  shows "sorted (delaysFrom a d n)"
proof -
  have "list_all (\<lambda>x. x \<le> scaleDelay a x) (delaysFrom a d n)"
    using assms by (rule delaysFrom_doubling)
  then have "list_all (\<lambda>x. x \<le> scaleDelay a x) (butlast (delaysFrom a d n))"
    by (auto simp: list_all_iff dest: in_set_butlastD)
  with delaysFrom_sorted [OF assms(4), of n] show ?thesis by simp
qed

text \<open>
  The sleeps of the rest of the loop, from any attempt on, are such a sequence of
  delays, and the loop returns.
\<close>

lemma publishLoop_delays:
  assumes "publication a = Some tr"
  shows "\<exists>r a' k. publishLoop data attempt delay lastErr a = Some (r, a')
           \<and> slept a' = slept a @ delaysFrom a delay k"
  using assms
proof (induction "nat (MaxRetries a + 1 - attempt)" arbitrary: attempt delay lastErr a)
  case 0
  then have "\<not> attempt \<le> MaxRetries a" by simp
  then have "publishLoop data attempt delay lastErr a
             = Some (Some (FailedAfterRetries (MaxRetries a) lastErr), a)"
    by (rule publishLoop_exhausted)
  moreover have "slept a = slept a @ delaysFrom a delay 0" by simp
  ultimately show ?case by blast
next
  case (Suc n)
  from Suc.hyps(2) have le: "attempt \<le> MaxRetries a" by simp
  define pre where "pre = (if attempt > 0 then [delay] else [])"
  define delay1 where "delay1 = nextDelay a attempt delay"
  define a2 where "a2 = (beforeOffer a attempt delay)\<lparr>offered := offered a @ [data]\<rparr>"
  define result where "result = tr (length (offered a)) data"
  have chain: "pre @ delaysFrom a delay1 k
               = delaysFrom a delay (if attempt > 0 then Suc k else k)" for k
    by (simp add: pre_def delay1_def nextDelay_def)
  have retry: "\<exists>r a' k. publishLoop data (attempt + 1) delay1 e b = Some (r, a')
           \<and> slept a' = slept a @ delaysFrom a delay k"
    if b: "publication b = Some tr" "MaxRetries b = MaxRetries a"
      "MaxRetryDelay b = MaxRetryDelay a" "RetryBackoffMultiplier b = RetryBackoffMultiplier a"
      "outOfRangeInt64 b = outOfRangeInt64 a" "slept b = slept a @ pre" for e b
  proof -
    have n: "n = nat (MaxRetries b + 1 - (attempt + 1))"
      using Suc.hyps(2) b(2) by simp
    from Suc.hyps(1) [OF n b(1), of delay1 e]
    obtain r a' k where
      run: "publishLoop data (attempt + 1) delay1 e b = Some (r, a')"
      and sl: "slept a' = slept b @ delaysFrom b delay1 k"
      by blast
    have "slept a' = slept a @ (pre @ delaysFrom a delay1 k)"
      using sl b(6) delaysFrom_same_config [OF b(3,4,5)] by simp
    then have "slept a' = slept a @ delaysFrom a delay (if attempt > 0 then Suc k else k)"
      by (simp only: chain)
    with run show ?thesis by blast
  qed
  have stop: "\<exists>k. slept b = slept a @ delaysFrom a delay k"
    if "slept b = slept a @ pre" for b
  proof -
    have "pre = delaysFrom a delay (if attempt > 0 then Suc 0 else 0)"
      using chain [of 0] by simp
    with that show ?thesis by metis
  qed
  have f2: "publication a2 = Some tr" "MaxRetries a2 = MaxRetries a"
    "MaxRetryDelay a2 = MaxRetryDelay a" "RetryBackoffMultiplier a2 = RetryBackoffMultiplier a"
    "outOfRangeInt64 a2 = outOfRangeInt64 a" "slept a2 = slept a @ pre"
    using Suc.prems(1) by (simp_all add: a2_def pre_def)
  have unf: "publishLoop data attempt delay lastErr a =
     (if result = BackPressured then
           publishLoop data (attempt + 1) delay1 (Some BackpressureErr)
             (a2\<lparr>backpressureErrors := backpressureErrors a + 1\<rparr>)
         else if result = NotConnected then
           publishLoop data (attempt + 1) delay1 (Some PublicationNotConnected)
             (a2\<lparr>connectionErrors := connectionErrors a + 1\<rparr>)
         else if result = AdminAction then
           publishLoop data (attempt + 1) delay1 (Some AdminActionRequired) a2
         else if result = PublicationClosed then
           Some (Some PublicationClosedErr, a2\<lparr>connectionErrors := connectionErrors a + 1\<rparr>)
         else if result > 0 then Some (None, a2)
         else publishLoop data (attempt + 1) delay1 (Some (UnknownResultCode result)) a2)"
    unfolding publishLoop_unfold [OF le Suc.prems(1)] Let_def result_def a2_def delay1_def ..
  show ?case
  proof -
    consider (bp) "result = BackPressured" | (nc) "result \<noteq> BackPressured" "result = NotConnected"
      | (aa) "result \<noteq> BackPressured" "result \<noteq> NotConnected" "result = AdminAction"
      | (pc) "result \<noteq> BackPressured" "result \<noteq> NotConnected" "result \<noteq> AdminAction"
          "result = PublicationClosed"
      | (ok) "result \<noteq> BackPressured" "result \<noteq> NotConnected" "result \<noteq> AdminAction"
          "result \<noteq> PublicationClosed" "result > 0"
      | (un) "result \<noteq> BackPressured" "result \<noteq> NotConnected" "result \<noteq> AdminAction"
          "result \<noteq> PublicationClosed" "\<not> result > 0"
      by blast
    then show ?thesis
    proof cases
      case bp
      with retry [of "a2\<lparr>backpressureErrors := backpressureErrors a + 1\<rparr>" "Some BackpressureErr"] f2
      show ?thesis by (simp add: unf)
    next
      case nc
      with retry [of "a2\<lparr>connectionErrors := connectionErrors a + 1\<rparr>" "Some PublicationNotConnected"] f2
      show ?thesis by (simp add: unf)
    next
      case aa
      with retry [of a2 "Some AdminActionRequired"] f2
      show ?thesis by (simp add: unf)
    next
      case pc
      with stop [of "a2\<lparr>connectionErrors := connectionErrors a + 1\<rparr>"] f2
      show ?thesis by (simp add: unf)
    next
      case ok
      with stop [of a2] f2
      show ?thesis by (simp add: unf)
    next
      case un
      with retry [of a2 "Some (UnknownResultCode result)"] f2
      show ?thesis by (simp add: unf)
    qed
  qed
qed

text \<open>
  C5 as stated fails, in two ways. With a retry delay of 200ms, a maximum of 100ms, the
  multiplier 2.0 and a publication that stays backpressured, one call sleeps 200ms,
  then 100ms, then 100ms: the first delay is above the maximum and the second is
  below the first. With the default delays and the multiplier 0.5, one call sleeps 1ms,
  then 0.5ms, then 0.25ms.
\<close>

theorem publishMessage_first_delay_above_maximum:
  "RetryDelay pub_slow = 200000000 \<and> MaxRetryDelay pub_slow = 100000000
   \<and> map_option (\<lambda>(r, a'). slept a') (publishMessage pub_slow ''m'')
       = Some [200000000, 100000000, 100000000]
   \<and> \<not> sorted [200000000, 100000000, 100000000 :: int]
   \<and> \<not> list_all (\<lambda>d. d \<le> MaxRetryDelay pub_slow) [200000000, 100000000, 100000000]
   \<and> RetryDelay pub_half = 1000000 \<and> MaxRetryDelay pub_half = 100000000
   \<and> map_option (\<lambda>(r, a'). slept a') (publishMessage pub_half ''m'')
       = Some [1000000, 500000, 250000]
   \<and> \<not> sorted [1000000, 500000, 250000 :: int]"
proof -
  have "map_option (\<lambda>(r, a'). slept a') (publishMessage pub_slow ''m'')
       = Some [200000000, 100000000, 100000000]"
    by code_simp
  moreover have "map_option (\<lambda>(r, a'). slept a') (publishMessage pub_half ''m'')
       = Some [1000000, 500000, 250000]"
    by code_simp
  ultimately show ?thesis
    by (simp add: pub_slow_def pub_half_def pub0_def)
qed

text \<open>
  C5, amended: when the configured retry delay is not above the maximum retry delay,
  every call of \<open>publishMessage\<close> on a publisher with a publication returns, and the
  delays it sleeps, in order, never exceed the maximum retry delay, whatever the
  multiplier; they never go down exactly when
  \<open>time.Duration(float64(delay) * multiplier)\<close> is not below \<open>delay\<close> for any of them
  that a further sleep follows. That is so with the multiplier 2.0 of the defaults, a
  retry delay that is not negative and a maximum below \<open>2 ^ 53\<close> nanoseconds.
\<close>

theorem publishMessage_delays_bounded:
  assumes "publication a = Some tr" and "RetryDelay a \<le> MaxRetryDelay a"
  shows "\<exists>r a' ds. publishMessage a data = Some (r, a')
           \<and> slept a' = slept a @ ds
           \<and> list_all (\<lambda>d. d \<le> MaxRetryDelay a) ds
           \<and> sorted ds = list_all (\<lambda>d. d \<le> scaleDelay a d) (butlast ds)
           \<and> (RetryBackoffMultiplier a = Finite False 1 1 \<and> 0 \<le> RetryDelay a
                \<and> MaxRetryDelay a < 2 ^ 53 \<longrightarrow> sorted ds)"
proof -
  from publishLoop_delays [OF assms(1), of data 0 "RetryDelay a" None]
  obtain r a' k where run: "publishLoop data 0 (RetryDelay a) None a = Some (r, a')"
    and sl: "slept a' = slept a @ delaysFrom a (RetryDelay a) k"
    by blast
  from run have "publishMessage a data = Some (r, a')"
    by (simp add: publishMessage_def)
  moreover have "RetryBackoffMultiplier a = Finite False 1 1 \<and> 0 \<le> RetryDelay a
      \<and> MaxRetryDelay a < 2 ^ 53 \<longrightarrow> sorted (delaysFrom a (RetryDelay a) k)"
    using delaysFrom_doubling_sorted [of a "RetryDelay a" k] assms(2) by blast
  ultimately show ?thesis
    using sl delaysFrom_capped [OF assms(2), of k] delaysFrom_sorted [OF assms(2), of k]
    by blast
qed

theorem publishMessage_delays_bounded_witness:
  "RetryDelay (pub0 (\<lambda>k d. BackPressured)) \<le> MaxRetryDelay (pub0 (\<lambda>k d. BackPressured))
   \<and> RetryBackoffMultiplier (pub0 (\<lambda>k d. BackPressured)) = Finite False 1 1
   \<and> 0 \<le> RetryDelay (pub0 (\<lambda>k d. BackPressured))
   \<and> MaxRetryDelay (pub0 (\<lambda>k d. BackPressured)) < 2 ^ 53
   \<and> (\<exists>r a' ds. publishMessage (pub0 (\<lambda>k d. BackPressured)) ''m'' = Some (r, a')
           \<and> slept a' = ds \<and> list_all (\<lambda>d. d \<le> 100000000) ds
           \<and> sorted ds
               = list_all (\<lambda>d. d \<le> scaleDelay (pub0 (\<lambda>k d. BackPressured)) d) (butlast ds)
           \<and> sorted ds)
   \<and> map_option (\<lambda>(r, a'). slept a') (publishMessage (pub0 (\<lambda>k d. BackPressured)) ''m'')
       = Some [1000000, 2000000, 4000000]"
proof -
  let ?a = "pub0 (\<lambda>k d. BackPressured)"
  have f: "publication ?a = Some (\<lambda>k d. BackPressured)" "RetryDelay ?a \<le> MaxRetryDelay ?a"
    by (simp_all add: pub0_def)
  have g: "slept ?a = []" "MaxRetryDelay ?a = 100000000"
    "RetryBackoffMultiplier ?a = Finite False 1 1" "0 \<le> RetryDelay ?a"
    by (simp_all add: pub0_def)
  have e: "map_option (\<lambda>(r, a'). slept a') (publishMessage ?a ''m'')
       = Some [1000000, 2000000, 4000000]"
    by code_simp
  from publishMessage_delays_bounded [OF f, of "''m''"] f(2) e show ?thesis
    by (simp add: g)
qed

lemma publishLoop_nil_publication:
  "attempt \<le> MaxRetries a \<Longrightarrow> publication a = None \<Longrightarrow>
   publishLoop data attempt delay lastErr a = None"
  by (subst publishLoop.simps) (simp add: offerMessage_def Let_def)

text \<open>
  What a run of the loop leaves alone: the serializer and the maximum message size; and
  all it offers is the payload it was given.
\<close>

lemma publishLoop_frame:
  assumes "publishLoop data attempt delay lastErr a = Some (r, a')"
  shows "serializer a' = serializer a \<and> MaxMessageSize a' = MaxMessageSize a
         \<and> set (offered a') \<subseteq> insert data (set (offered a))"
  using assms
proof (induction "nat (MaxRetries a + 1 - attempt)" arbitrary: attempt delay lastErr a)
  case 0
  then have "\<not> attempt \<le> MaxRetries a" by simp
  with "0.prems" show ?case by (auto simp: publishLoop_exhausted)
next
  case (Suc n)
  from Suc.hyps(2) have le: "attempt \<le> MaxRetries a" by simp
  obtain tr where p: "publication a = Some tr"
    using Suc.prems publishLoop_nil_publication [OF le] by (cases "publication a") auto
  define delay1 where "delay1 = nextDelay a attempt delay"
  define a2 where "a2 = (beforeOffer a attempt delay)\<lparr>offered := offered a @ [data]\<rparr>"
  define result where "result = tr (length (offered a)) data"
  have f2: "MaxRetries a2 = MaxRetries a" "serializer a2 = serializer a"
    "MaxMessageSize a2 = MaxMessageSize a" "offered a2 = offered a @ [data]"
    by (simp_all add: a2_def beforeOffer_def)
  have retry: "serializer a' = serializer a \<and> MaxMessageSize a' = MaxMessageSize a
         \<and> set (offered a') \<subseteq> insert data (set (offered a))"
    if b: "MaxRetries b = MaxRetries a" "serializer b = serializer a"
      "MaxMessageSize b = MaxMessageSize a" "offered b = offered a @ [data]"
      and run: "publishLoop data (attempt + 1) delay1 e b = Some (r, a')" for e b
  proof -
    have n: "n = nat (MaxRetries b + 1 - (attempt + 1))"
      using Suc.hyps(2) b(1) by simp
    from Suc.hyps(1) [OF n run] b show ?thesis by auto
  qed
  have unf: "publishLoop data attempt delay lastErr a =
     (if result = BackPressured then
           publishLoop data (attempt + 1) delay1 (Some BackpressureErr)
             (a2\<lparr>backpressureErrors := backpressureErrors a + 1\<rparr>)
         else if result = NotConnected then
           publishLoop data (attempt + 1) delay1 (Some PublicationNotConnected)
             (a2\<lparr>connectionErrors := connectionErrors a + 1\<rparr>)
         else if result = AdminAction then
           publishLoop data (attempt + 1) delay1 (Some AdminActionRequired) a2
         else if result = PublicationClosed then
           Some (Some PublicationClosedErr, a2\<lparr>connectionErrors := connectionErrors a + 1\<rparr>)
         else if result > 0 then Some (None, a2)
         else publishLoop data (attempt + 1) delay1 (Some (UnknownResultCode result)) a2)"
    unfolding publishLoop_unfold [OF le p] Let_def result_def a2_def delay1_def ..
  consider (bp) "result = BackPressured" | (nc) "result \<noteq> BackPressured" "result = NotConnected"
    | (aa) "result \<noteq> BackPressured" "result \<noteq> NotConnected" "result = AdminAction"
    | (pc) "result \<noteq> BackPressured" "result \<noteq> NotConnected" "result \<noteq> AdminAction"
        "result = PublicationClosed"
    | (ok) "result \<noteq> BackPressured" "result \<noteq> NotConnected" "result \<noteq> AdminAction"
        "result \<noteq> PublicationClosed" "result > 0"
    | (un) "result \<noteq> BackPressured" "result \<noteq> NotConnected" "result \<noteq> AdminAction"
        "result \<noteq> PublicationClosed" "\<not> result > 0"
    by blast
  then show ?case
  proof cases
    case bp
    with Suc.prems unf have "publishLoop data (attempt + 1) delay1 (Some BackpressureErr)
             (a2\<lparr>backpressureErrors := backpressureErrors a + 1\<rparr>) = Some (r, a')" by simp
    then show ?thesis by (rule retry [rotated -1]) (simp_all add: f2)
  next
    case nc
    with Suc.prems unf have "publishLoop data (attempt + 1) delay1 (Some PublicationNotConnected)
             (a2\<lparr>connectionErrors := connectionErrors a + 1\<rparr>) = Some (r, a')" by simp
    then show ?thesis by (rule retry [rotated -1]) (simp_all add: f2)
  next
    case aa
    with Suc.prems unf
    have "publishLoop data (attempt + 1) delay1 (Some AdminActionRequired) a2 = Some (r, a')"
      by simp
    then show ?thesis by (rule retry [rotated -1]) (simp_all add: f2)
  next
    case pc
    with Suc.prems unf have "a' = a2\<lparr>connectionErrors := connectionErrors a + 1\<rparr>" by simp
    then show ?thesis by (auto simp: f2)
  next
    case ok
    with Suc.prems unf have "a' = a2" by simp
    then show ?thesis by (auto simp: f2)
  next
    case un
    with Suc.prems unf
    have "publishLoop data (attempt + 1) delay1 (Some (UnknownResultCode result)) a2 = Some (r, a')"
      by simp
    then show ?thesis by (rule retry [rotated -1]) (simp_all add: f2)
  qed
qed

lemma WriteLoop_frame:
  assumes "WriteLoop a ms = Some a'"
  shows "MaxMessageSize a' = MaxMessageSize a
         \<and> list_all (\<lambda>d. List.member (offered a) d \<or> \<not> (0 < MaxMessageSize a \<and> MaxMessageSize a < int (length d)))
              (offered a')"
  using assms
proof (induction ms arbitrary: a)
  case Nil
  then show ?case by (simp add: list_all_iff)
next
  case (Cons m ms)
  from Cons.prems obtain ser where ser: "serializer a = Some ser"
    by (cases "serializer a") auto
  have step: "MaxMessageSize a' = MaxMessageSize a
         \<and> list_all (\<lambda>d. List.member (offered a) d \<or> \<not> (0 < MaxMessageSize a \<and> MaxMessageSize a < int (length d)))
              (offered a')"
    if run: "WriteLoop b ms = Some a'" and mm: "MaxMessageSize b = MaxMessageSize a"
      and off: "list_all (\<lambda>d. List.member (offered a) d \<or> \<not> (0 < MaxMessageSize a \<and> MaxMessageSize a < int (length d)))
              (offered b)" for b
    using Cons.IH [OF run] mm off by (auto simp: list_all_iff)
  show ?case
  proof (cases "ser m")
    case None
    with Cons.prems ser have "WriteLoop (a\<lparr>logged := logged a @ [ErrorSerialize]\<rparr>) ms = Some a'"
      by simp
    then show ?thesis by (rule step) (simp_all add: list_all_iff)
  next
    case (Some data)
    show ?thesis
    proof (cases "MaxMessageSize a > 0 \<and> int (length data) > MaxMessageSize a")
      case True
      with Cons.prems ser Some
      have "WriteLoop (a\<lparr>messagesDropped := messagesDropped a + 1,
                               logged := logged a @
                                 [WarnDropOversize (int (length data)) (MaxMessageSize a)]\<rparr>) ms = Some a'"
        by simp
      then show ?thesis by (rule step) (simp_all add: list_all_iff)
    next
      case False
      with Cons.prems ser Some obtain r a1 where pm: "publishMessage a data = Some (r, a1)"
        by (cases "publishMessage a data") auto
      from publishLoop_frame [OF pm [unfolded publishMessage_def]]
      have fr: "MaxMessageSize a1 = MaxMessageSize a"
        "set (offered a1) \<subseteq> insert data (set (offered a))" by simp_all
      have off1: "list_all (\<lambda>d. List.member (offered a) d \<or> \<not> (0 < MaxMessageSize a \<and> MaxMessageSize a < int (length d)))
              (offered a1)"
        using fr(2) False by (auto simp: list_all_iff)
      show ?thesis
      proof (cases r)
        case None
        with Cons.prems ser Some False pm
        have "WriteLoop (a1\<lparr>messagesSent := messagesSent a1 + 1,
                    bytesTransferred := bytesTransferred a1 + int (length data)\<rparr>) ms = Some a'"
          by simp
        then show ?thesis by (rule step) (use fr off1 in simp_all)
      next
        case (Some err)
        with Cons.prems ser \<open>ser m = Some data\<close> False pm
        have "WriteLoop (a1\<lparr>messagesDropped := messagesDropped a1 + 1,
                                     logged := logged a1 @ [ErrorPublish err]\<rparr>) ms = Some a'"
          by simp
        then show ?thesis by (rule step) (use fr off1 in simp_all)
      qed
    qed
  qed
qed

text \<open>
  Over a whole batch: a payload longer than a positive \<open>MaxMessageSize\<close> that was not
  offered before \<open>Write\<close> is not among the offers after it, wherever its metric stands
  in the batch and whatever the publication answers.
\<close>

theorem Write_never_offers_oversize:
  assumes "Write a ms = Some (r, a')"
    and "0 < MaxMessageSize a" and "MaxMessageSize a < int (length d)"
    and "\<not> List.member (offered a) d"
  shows "\<not> List.member (offered a') d"
proof (cases "\<not> connected a \<or> publication a = None \<or> serializer a = None")
  case True
  with assms(1) have "a' = a" by (auto simp: Write_def split: if_splits)
  with assms(4) show ?thesis by simp
next
  case False
  with assms(1) have "WriteLoop a ms = Some a'"
    by (auto simp: Write_def)
  from WriteLoop_frame [OF this] assms(2,3,4) show ?thesis
    by (auto simp: list_all_iff)
qed

theorem Write_never_offers_oversize_witness:
  "(\<exists>r a'. Write pub_small [''ab'', ''abcd'', ''abc''] = Some (r, a')
          \<and> \<not> List.member (offered a') ''abcd'')
   \<and> map_option (\<lambda>(r, a'). (r, offered a', messagesDropped a', messagesSent a'))
        (Write pub_small [''ab'', ''abcd'', ''abc''])
      = Some (None, [''ab'', ''abc''], 1, 2)"
proof -
  have e: "map_option (\<lambda>(r, a'). (r, offered a', messagesDropped a', messagesSent a'))
        (Write pub_small [''ab'', ''abcd'', ''abc''])
      = Some (None, [''ab'', ''abc''], 1, 2)"
    by code_simp
  then obtain r a' where w: "Write pub_small [''ab'', ''abcd'', ''abc''] = Some (r, a')"
    by (cases "Write pub_small [''ab'', ''abcd'', ''abc'']") auto
  have f: "0 < MaxMessageSize pub_small" "MaxMessageSize pub_small < int (length ''abcd'')"
    "\<not> List.member (offered pub_small) ''abcd''"
    by (simp_all add: pub_small_def pub0_def)
  from Write_never_offers_oversize [OF w f] w e show ?thesis by blast
qed

end
